theory Spec2Isabelle
  imports Complex_Main
begin

section \<open>Python values\<close>

text \<open>
  The record handed to \<^verbatim>\<open>get_school_metrics\<close> is one element of the \<^verbatim>\<open>results\<close>
  array of a decoded JSON document, so it is built from \<^verbatim>\<open>None\<close>, booleans, unbounded
  integers, floats, strings, lists and dictionaries.  A dictionary is an association
  list read through \<open>map_of\<close>; the report the function builds is a dictionary too, and
  there the order of the list is the insertion order of the Python \<^verbatim>\<open>dict\<close>.

  A float is kept as sign, mantissa and binary exponent: \<open>Fl s m e\<close> stands for
  \<open>(-1)\<^sup>s * m * 2\<^sup>e\<close>.  The IEEE doubles are the values with \<open>m < 2\<^sup>5\<^sup>3\<close> and
  \<open>-1074 \<le> e \<le> 971\<close>, together with the two infinities and NaN.
\<close>

datatype pyfloat = Fl bool nat int | FInf bool | FNaN

datatype pyval =
    PNone
  | PBool bool
  | PInt int
  | PFloat pyfloat
  | PStr string
  | PList "pyval list"
  | PDict "(string \<times> pyval) list"

datatype error = AttributeError | TypeError | ValueError | OverflowError | KeyError

definition is_double :: "pyfloat \<Rightarrow> bool" where
  "is_double f =
     (case f of Fl s m e \<Rightarrow> m < 2 ^ 53 \<and> - 1074 \<le> e \<and> e \<le> 971 | _ \<Rightarrow> True)"

section \<open>Builtins used by the aggregator\<close>

subsection \<open>Method calls and the order of evaluation\<close>

text \<open>
  An expression either yields a value or raises; \<open>Inl\<close> carries the exception.
  \<open>get r k d\<close> is the call \<^verbatim>\<open>r.get(k, d)\<close> on a receiver that may itself have raised:
  only a \<^verbatim>\<open>dict\<close> has the method, any other receiver raises \<^verbatim>\<open>AttributeError\<close>.
\<close>

definition get :: "error + pyval \<Rightarrow> string \<Rightarrow> pyval \<Rightarrow> error + pyval" where
  "get r k d =
     (case r of
        Inl err \<Rightarrow> Inl err
      | Inr (PDict kvs) \<Rightarrow> Inr (case map_of kvs k of None \<Rightarrow> d | Some v \<Rightarrow> v)
      | Inr _ \<Rightarrow> Inl AttributeError)"

text \<open>\<open>call f a\<close> is the call \<^verbatim>\<open>f(a)\<close>: the argument is evaluated first.\<close>

definition call :: "(pyval \<Rightarrow> error + pyval) \<Rightarrow> error + pyval \<Rightarrow> error + pyval" where
  "call f a = (case a of Inl err \<Rightarrow> Inl err | Inr v \<Rightarrow> f v)"

text \<open>
  A dictionary display \<^verbatim>\<open>{k1: e1, k2: e2, ...}\<close> evaluates its items from left to right;
  the first exception leaves the display.
\<close>

fun eval_items :: "(string \<times> (error + pyval)) list \<Rightarrow> error + (string \<times> pyval) list" where
  "eval_items [] = Inr []"
| "eval_items ((k, Inl err) # rest) = Inl err"
| "eval_items ((k, Inr v) # rest) =
     (case eval_items rest of Inl err \<Rightarrow> Inl err | Inr kvs \<Rightarrow> Inr ((k, v) # kvs))"

definition dict_display :: "(string \<times> (error + pyval)) list \<Rightarrow> error + pyval" where
  "dict_display items =
     (case eval_items items of Inl err \<Rightarrow> Inl err | Inr kvs \<Rightarrow> Inr (PDict kvs))"

subsection \<open>Comparison with an integer, truth value\<close>

text \<open>\<open>py_eq_int v n\<close> is \<^verbatim>\<open>v == n\<close> for an integer literal \<open>n\<close>.\<close>

definition float_eq_int :: "pyfloat \<Rightarrow> int \<Rightarrow> bool" where
  "float_eq_int f n =
     (case f of
        Fl s m e \<Rightarrow>
          (let v = (if s then - int m else int m)
           in if 0 \<le> e then v * 2 ^ nat e = n else v = n * 2 ^ nat (- e))
      | _ \<Rightarrow> False)"

fun py_eq_int :: "pyval \<Rightarrow> int \<Rightarrow> bool" where
  "py_eq_int (PBool b) n = ((if b then 1 else 0) = n)"
| "py_eq_int (PInt i) n = (i = n)"
| "py_eq_int (PFloat f) n = float_eq_int f n"
| "py_eq_int _ n = False"

fun py_truthy :: "pyval \<Rightarrow> bool" where
  "py_truthy PNone = False"
| "py_truthy (PBool b) = b"
| "py_truthy (PInt i) = (i \<noteq> 0)"
| "py_truthy (PFloat f) = (\<not> float_eq_int f 0)"
| "py_truthy (PStr s) = (s \<noteq> [])"
| "py_truthy (PList xs) = (xs \<noteq> [])"
| "py_truthy (PDict kvs) = (kvs \<noteq> [])"

subsection \<open>Decimal digits\<close>

definition digit_char :: "nat \<Rightarrow> char" where
  "digit_char d = ''0123456789'' ! d"

fun digits10 :: "nat \<Rightarrow> string" where
  "digits10 n = (if n < 10 then [digit_char n] else digits10 (n div 10) @ [digit_char (n mod 10)])"

declare digits10.simps [simp del]

definition int_str :: "int \<Rightarrow> string" where
  "int_str i = (if i < 0 then CHR ''-'' # digits10 (nat (- i)) else digits10 (nat i))"

text \<open>The \<^verbatim>\<open>,\<close> option of a format specification: a comma before every group of three digits.\<close>

fun group3 :: "string \<Rightarrow> string" where
  "group3 ds =
     (if length ds \<le> 3 then ds
      else group3 (take (length ds - 3) ds) @ CHR '','' # drop (length ds - 3) ds)"

declare group3.simps [simp del]

text \<open>\<open>zero_pad p ds\<close> fills \<open>ds\<close> with leading zeros up to \<open>p\<close> digits.\<close>

definition zero_pad :: "nat \<Rightarrow> string \<Rightarrow> string" where
  "zero_pad p ds = replicate (p - length ds) CHR ''0'' @ ds"

subsection \<open>Floats: rounding to a double\<close>

text \<open>\<open>bit_length n\<close> is \<^verbatim>\<open>n.bit_length()\<close>: the number of binary digits of \<open>n\<close>.\<close>

fun bit_length :: "nat \<Rightarrow> nat" where
  "bit_length n = (if n = 0 then 0 else Suc (bit_length (n div 2)))"

declare bit_length.simps [simp del]

text \<open>
  \<open>shift_round m k\<close> is \<open>m / 2\<^sup>k\<close> rounded to the nearest integer, a tie going to the
  even neighbour: the rounding of IEEE arithmetic and of Python's number formatting.
\<close>

definition shift_round :: "nat \<Rightarrow> nat \<Rightarrow> nat" where
  "shift_round m k =
     (let d = 2 ^ k; f = m div d; r = m mod d
      in if 2 * r < d then f
         else if d < 2 * r then f + 1
         else if even f then f else f + 1)"

text \<open>
  \<open>round_to_double s m e\<close> is the double nearest to the exact value \<open>(-1)\<^sup>s * m * 2\<^sup>e\<close>:
  the mantissa is cut to 53 bits (fewer below \<open>2\<^sup>-\<^sup>1\<^sup>0\<^sup>2\<^sup>2\<close>, where the exponent stays at
  \<open>-1074\<close>), and a result of \<open>2\<^sup>1\<^sup>0\<^sup>2\<^sup>4\<close> or more is an infinity.
\<close>

definition finite_or_inf :: "bool \<Rightarrow> nat \<Rightarrow> int \<Rightarrow> pyfloat" where
  "finite_or_inf s m e =
     (if m \<noteq> 0 \<and> 1024 < int (bit_length m) + e then FInf s else Fl s m e)"

definition round_to_double :: "bool \<Rightarrow> nat \<Rightarrow> int \<Rightarrow> pyfloat" where
  "round_to_double s m e =
     (let k = max (int (bit_length m) - 53) (- 1074 - e)
      in if k \<le> 0 then finite_or_inf s m e
         else finite_or_inf s (shift_round m (nat k)) (e + k))"

text \<open>
  \<^verbatim>\<open>float(i)\<close> for an integer, as the \<^verbatim>\<open>f\<close> presentation type applies it before
  formatting: correctly rounded, \<^verbatim>\<open>OverflowError\<close> beyond the range of a double.
\<close>

definition int_to_float :: "int \<Rightarrow> error + pyfloat" where
  "int_to_float i =
     (case round_to_double (i < 0) (nat \<bar>i\<bar>) 0 of
        FInf s \<Rightarrow> Inl OverflowError
      | f \<Rightarrow> Inr f)"

text \<open>
  \<open>py_mul v n\<close> is \<^verbatim>\<open>v * n\<close> for a positive integer literal \<open>n\<close> below \<open>2\<^sup>5\<^sup>3\<close> (so that
  \<^verbatim>\<open>float(n)\<close> is exact): integer product, rounded float product (an overflow gives an
  infinity and raises nothing), repetition of a string or a list.
\<close>

fun float_mul :: "pyfloat \<Rightarrow> nat \<Rightarrow> pyfloat" where
  "float_mul (Fl s m e) n = round_to_double s (m * n) e"
| "float_mul (FInf s) n = FInf s"
| "float_mul FNaN n = FNaN"

fun py_mul :: "pyval \<Rightarrow> nat \<Rightarrow> error + pyval" where
  "py_mul PNone n = Inl TypeError"
| "py_mul (PBool b) n = Inr (PInt ((if b then 1 else 0) * int n))"
| "py_mul (PInt i) n = Inr (PInt (i * int n))"
| "py_mul (PFloat f) n = Inr (PFloat (float_mul f n))"
| "py_mul (PStr s) n = Inr (PStr (concat (replicate n s)))"
| "py_mul (PList xs) n = Inr (PList (concat (replicate n xs)))"
| "py_mul (PDict kvs) n = Inl TypeError"

subsection \<open>The format specifications \<^verbatim>\<open>,.2f\<close> and \<^verbatim>\<open>.1f\<close>\<close>

text \<open>
  \<open>scaled m e p\<close> is \<open>m * 2\<^sup>e * 10\<^sup>p\<close> rounded to an integer (ties to even): the digits
  that the \<^verbatim>\<open>f\<close> presentation type prints with precision \<open>p\<close>.
\<close>

definition scaled :: "nat \<Rightarrow> int \<Rightarrow> nat \<Rightarrow> nat" where
  "scaled m e p =
     (if 0 \<le> e then m * 2 ^ nat e * 10 ^ p else shift_round (m * 10 ^ p) (nat (- e)))"

text \<open>
  \<open>fixed_digits c p n\<close> writes the scaled integer \<open>n\<close> with \<open>p\<close> digits after the point,
  with thousands separators in the integer part when \<open>c\<close> is set.
\<close>

definition fixed_digits :: "bool \<Rightarrow> nat \<Rightarrow> nat \<Rightarrow> string" where
  "fixed_digits c p n =
     (let ip = digits10 (n div 10 ^ p)
      in (if c then group3 ip else ip) @
         (if p = 0 then [] else CHR ''.'' # zero_pad p (digits10 (n mod 10 ^ p))))"

fun float_fixed :: "bool \<Rightarrow> nat \<Rightarrow> pyfloat \<Rightarrow> string" where
  "float_fixed c p (Fl s m e) = (if s then ''-'' else []) @ fixed_digits c p (scaled m e p)"
| "float_fixed c p (FInf s) = (if s then ''-inf'' else ''inf'')"
| "float_fixed c p FNaN = ''nan''"

text \<open>
  \<open>format_f c p v\<close> is \<^verbatim>\<open>format(v, ',.pf')\<close> (\<open>c\<close> set) or \<^verbatim>\<open>format(v, '.pf')\<close>: a
  boolean or an integer is converted to a float first, a string raises
  \<^verbatim>\<open>ValueError\<close>, and \<^verbatim>\<open>None\<close>, a list or a dictionary raise \<^verbatim>\<open>TypeError\<close>.
\<close>

fun format_f :: "bool \<Rightarrow> nat \<Rightarrow> pyval \<Rightarrow> error + string" where
  "format_f c p PNone = Inl TypeError"
| "format_f c p (PBool b) = Inr (float_fixed c p (Fl False (if b then 1 else 0) 0))"
| "format_f c p (PInt i) =
     (case int_to_float i of Inl err \<Rightarrow> Inl err | Inr f \<Rightarrow> Inr (float_fixed c p f))"
| "format_f c p (PFloat f) = Inr (float_fixed c p f)"
| "format_f c p (PStr s) = Inl ValueError"
| "format_f c p (PList xs) = Inl TypeError"
| "format_f c p (PDict kvs) = Inl TypeError"

section \<open>The formatters of \<^verbatim>\<open>app.py\<close>\<close>

text \<open>
  \<^verbatim>\<open>
  def format_currency(amount):
      if amount is None or amount == 0:
          return "N/A"
      return f"${amount:,.2f}"
  \<close>
\<close>

definition format_currency :: "pyval \<Rightarrow> error + pyval" where
  "format_currency amount =
     (if amount = PNone \<or> py_eq_int amount 0 then Inr (PStr ''N/A'')
      else case format_f True 2 amount of
             Inl err \<Rightarrow> Inl err
           | Inr s \<Rightarrow> Inr (PStr (CHR ''$'' # s)))"

text \<open>
  \<^verbatim>\<open>
  def format_percentage(decimal):
      if decimal is None:
          return "N/A"
      return f"{decimal * 100:.1f}%"
  \<close>
\<close>

definition format_percentage :: "pyval \<Rightarrow> error + pyval" where
  "format_percentage decimal =
     (if decimal = PNone then Inr (PStr ''N/A'')
      else case py_mul decimal 100 of
             Inl err \<Rightarrow> Inl err
           | Inr x \<Rightarrow>
               (case format_f False 1 x of
                  Inl err \<Rightarrow> Inl err
                | Inr s \<Rightarrow> Inr (PStr (s @ ''%''))))"

section \<open>The metrics aggregator\<close>

subsection \<open>Formatted string literals and conditional expressions\<close>

text \<open>
  A replacement field without a format specification prints \<^verbatim>\<open>str(v)\<close>.  For \<^verbatim>\<open>None\<close>, a
  boolean, an integer and a string that text is written out here.  For a float, a list
  and a dictionary it is their \<^verbatim>\<open>repr\<close> (shortest round-trip digits, quoting and escaping
  of nested strings), which is not modelled: it is the parameter \<open>py_repr\<close>, and every
  statement below holds for any choice of it.
\<close>

fun py_str :: "(pyval \<Rightarrow> string) \<Rightarrow> pyval \<Rightarrow> string" where
  "py_str py_repr PNone = ''None''"
| "py_str py_repr (PBool b) = (if b then ''True'' else ''False'')"
| "py_str py_repr (PInt i) = int_str i"
| "py_str py_repr (PStr s) = s"
| "py_str py_repr v = py_repr v"

datatype piece = Lit string | Expr "error + pyval"

fun join_pieces :: "(pyval \<Rightarrow> string) \<Rightarrow> piece list \<Rightarrow> error + string" where
  "join_pieces py_repr [] = Inr []"
| "join_pieces py_repr (Lit s # ps) =
     (case join_pieces py_repr ps of Inl err \<Rightarrow> Inl err | Inr t \<Rightarrow> Inr (s @ t))"
| "join_pieces py_repr (Expr (Inl err) # ps) = Inl err"
| "join_pieces py_repr (Expr (Inr v) # ps) =
     (case join_pieces py_repr ps of Inl err \<Rightarrow> Inl err | Inr t \<Rightarrow> Inr (py_str py_repr v @ t))"

definition fstring :: "(pyval \<Rightarrow> string) \<Rightarrow> piece list \<Rightarrow> error + pyval" where
  "fstring py_repr ps =
     (case join_pieces py_repr ps of Inl err \<Rightarrow> Inl err | Inr t \<Rightarrow> Inr (PStr t))"

text \<open>\<open>if_else a c b\<close> is the conditional expression \<^verbatim>\<open>a if c else b\<close>: \<open>c\<close> is evaluated first.\<close>

definition if_else :: "error + pyval \<Rightarrow> error + pyval \<Rightarrow> error + pyval \<Rightarrow> error + pyval" where
  "if_else a c b =
     (case c of Inl err \<Rightarrow> Inl err | Inr v \<Rightarrow> if py_truthy v then a else b)"

text \<open>\<open>eq_int r n\<close> is the comparison \<^verbatim>\<open>r == n\<close> with an integer literal.\<close>

definition eq_int :: "error + pyval \<Rightarrow> int \<Rightarrow> error + pyval" where
  "eq_int r n = (case r of Inl err \<Rightarrow> Inl err | Inr v \<Rightarrow> Inr (PBool (py_eq_int v n)))"

subsection \<open>\<^verbatim>\<open>get_school_metrics\<close>\<close>

text \<open>
  The function of \<^verbatim>\<open>app.py\<close>, lines 36 to 123: two assignments and one nested dictionary
  display, item by item in the order of the source.
\<close>

definition get_school_metrics :: "(pyval \<Rightarrow> string) \<Rightarrow> pyval \<Rightarrow> error + pyval" where
  "get_school_metrics py_repr school_data =
    (case get (Inr school_data) ''latest'' (PDict []) of
       Inl err \<Rightarrow> Inl err
     | Inr latest_value \<Rightarrow>
    (case get (Inr school_data) ''school'' (PDict []) of
       Inl err \<Rightarrow> Inl err
     | Inr school_value \<Rightarrow>
    (let latest = Inr latest_value; school = Inr school_value in
     dict_display [
      (''Institution Overview'', dict_display [
        (''Name'', get school ''name'' PNone),
        (''Location'', fstring py_repr
           [Expr (get school ''city'' (PStr ''N/A'')), Lit '', '',
            Expr (get school ''state'' (PStr ''N/A''))]),
        (''Address'', get school ''address'' (PStr ''N/A'')),
        (''Website'',
           if_else (fstring py_repr [Lit ''https://'', Expr (get school ''school_url'' PNone)])
             (get school ''school_url'' PNone)
             (Inr (PStr ''N/A''))),
        (''Type'',
           if_else (Inr (PStr ''Public''))
             (eq_int (get school ''ownership'' PNone) 1)
             (Inr (PStr ''Private''))),
        (''Carnegie Classification'', get school ''carnegie_basic'' PNone),
        (''Accreditor'', get school ''accreditor'' PNone),
        (''Religious Affiliation'', get school ''religious_affiliation'' (PStr ''None''))]),
      (''Enrollment & Faculty'', dict_display [
        (''Student Body'', dict_display [
          (''Undergraduate Enrollment'',
             get (get (get latest ''student'' (PDict [])) ''enrollment'' (PDict []))
               ''undergrad_12_month'' (PStr ''N/A'')),
          (''Graduate Enrollment'',
             get (get (get latest ''student'' (PDict [])) ''enrollment'' (PDict []))
               ''grad_12_month'' (PStr ''N/A'')),
          (''Part-time Share'', call format_percentage
             (get (get latest ''student'' (PDict [])) ''part_time_share'' PNone))]),
        (''Faculty'', dict_display [
          (''Student-Faculty Ratio'', fstring py_repr
             [Expr (get (get (get latest ''student'' (PDict [])) ''demographics'' (PDict []))
                ''student_faculty_ratio'' PNone),
              Lit '':1'']),
          (''Full-time Faculty Rate'', call format_percentage
             (get school ''ft_faculty_rate'' PNone)),
          (''Faculty Salary'', call format_currency
             (get school ''faculty_salary'' PNone))])]),
      (''Demographics'', dict_display [
        (''Gender'', dict_display [
          (''Men'', call format_percentage
             (get (get (get latest ''student'' (PDict [])) ''demographics'' (PDict []))
                ''men'' PNone)),
          (''Women'', call format_percentage
             (get (get (get latest ''student'' (PDict [])) ''demographics'' (PDict []))
                ''women'' PNone))]),
        (''Student Background'', dict_display [
          (''First Generation'', call format_percentage
             (get (get latest ''student'' (PDict [])) ''share_firstgeneration'' PNone)),
          (''Age 25 or Older'', call format_percentage
             (get (get latest ''student'' (PDict [])) ''share_25_older'' PNone)),
          (''Average Age at Entry'',
             get (get (get latest ''student'' (PDict [])) ''demographics'' (PDict []))
               ''age_entry'' PNone),
          (''Median Family Income'', call format_currency
             (get (get (get latest ''student'' (PDict [])) ''demographics'' (PDict []))
                ''median_family_income'' PNone))])]),
      (''Cost & Financial Aid'', dict_display [
        (''Direct Costs'', dict_display [
          (''In-State Tuition'', call format_currency
             (get (get (get latest ''cost'' (PDict [])) ''tuition'' (PDict []))
                ''in_state'' PNone)),
          (''Out-of-State Tuition'', call format_currency
             (get (get (get latest ''cost'' (PDict [])) ''tuition'' (PDict []))
                ''out_of_state'' PNone)),
          (''Room and Board'', call format_currency
             (get (get (get latest ''cost'' (PDict [])) ''roomboard'' (PDict []))
                ''oncampus'' PNone)),
          (''Books and Supplies'', call format_currency
             (get (get latest ''cost'' (PDict [])) ''booksupply'' PNone))]),
        (''Net Price'', dict_display [
          (''Average'', call format_currency
             (get (get (get latest ''cost'' (PDict [])) ''avg_net_price'' (PDict []))
                ''overall'' PNone)),
          (''Low Income (0-30k)'', call format_currency
             (get (get (get (get (get latest ''cost'' (PDict [])) ''net_price'' (PDict []))
                ''public'' (PDict [])) ''by_income_level'' (PDict [])) ''0-30000'' PNone)),
          (''High Income (75k+)'', call format_currency
             (get (get (get (get (get latest ''cost'' (PDict [])) ''net_price'' (PDict []))
                ''public'' (PDict [])) ''by_income_level'' (PDict [])) ''75000-plus'' PNone))]),
        (''Aid & Debt'', dict_display [
          (''Pell Grant Recipients'', call format_percentage
             (get (get latest ''student'' (PDict [])) ''students_with_pell_grant'' PNone)),
          (''Federal Loan Recipients'', call format_percentage
             (get (get latest ''aid'' (PDict [])) ''federal_loan_rate'' PNone)),
          (''Median Debt'', call format_currency
             (get (get (get (get latest ''aid'' (PDict [])) ''median_debt'' (PDict []))
                ''completers'' (PDict [])) ''overall'' PNone))])]),
      (''Student Success'', dict_display [
        (''Retention'', dict_display [
          (''First-year Full-time'', call format_percentage
             (get (get (get (get latest ''student'' (PDict [])) ''retention_rate'' (PDict []))
                ''overall'' (PDict [])) ''full_time'' PNone)),
          (''First-year Part-time'', call format_percentage
             (get (get (get (get latest ''student'' (PDict [])) ''retention_rate'' (PDict []))
                ''overall'' (PDict [])) ''part_time'' PNone))]),
        (''Graduation'', dict_display [
          (''4-year rate'', call format_percentage
             (get (get latest ''completion'' (PDict [])) ''completion_rate_4yr_150nt'' PNone)),
          (''6-year rate'', call format_percentage
             (get (get latest ''completion'' (PDict [])) ''completion_rate_4yr_150nt'' PNone)),
          (''Transfer-out rate'', call format_percentage
             (get (get (get (get latest ''completion'' (PDict [])) ''transfer_rate'' (PDict []))
                ''4yr'' (PDict [])) ''full_time'' PNone))])]),
      (''Career Outcomes'', dict_display [
        (''Median Earnings'', dict_display [
          (''6 years after entry'', call format_currency
             (get (get (get latest ''earnings'' (PDict [])) ''6_yrs_after_entry'' (PDict []))
                ''median'' PNone)),
          (''8 years after entry'', call format_currency
             (get (get (get latest ''earnings'' (PDict [])) ''8_yrs_after_entry'' (PDict []))
                ''median_earnings'' PNone)),
          (''10 years after entry'', call format_currency
             (get (get (get latest ''earnings'' (PDict [])) ''10_yrs_after_entry'' (PDict []))
                ''median'' PNone))]),
        (''Employment'', dict_display [
          (''Earning over $25k/year'', call format_percentage
             (get (get (get latest ''earnings'' (PDict [])) ''6_yrs_after_entry'' (PDict []))
                ''percent_greater_than_25000'' PNone))]),
        (''Loan Repayment'', dict_display [
          (''1-year rate'', call format_percentage
             (get (get (get (get latest ''repayment'' (PDict [])) ''1_yr'' (PDict []))
                ''rate_suppressed'' (PDict [])) ''overall'' PNone)),
          (''3-year rate'', call format_percentage
             (get (get (get (get latest ''repayment'' (PDict [])) ''3_yr'' (PDict []))
                ''rate_suppressed'' (PDict [])) ''overall'' PNone))])])])))"

subsection \<open>Reading a report\<close>

text \<open>
  \<open>subscript r k\<close> is \<^verbatim>\<open>r[k]\<close> for a string key: \<^verbatim>\<open>KeyError\<close> when a dictionary lacks the
  key, \<^verbatim>\<open>TypeError\<close> for every other receiver (a string or a list takes no string index,
  the other values take none at all).  \<open>field r ks\<close> follows several keys.
\<close>

definition subscript :: "error + pyval \<Rightarrow> string \<Rightarrow> error + pyval" where
  "subscript r k =
     (case r of
        Inl err \<Rightarrow> Inl err
      | Inr (PDict kvs) \<Rightarrow> (case map_of kvs k of None \<Rightarrow> Inl KeyError | Some v \<Rightarrow> Inr v)
      | Inr _ \<Rightarrow> Inl TypeError)"

fun field :: "error + pyval \<Rightarrow> string list \<Rightarrow> error + pyval" where
  "field r [] = r"
| "field r (k # ks) = field (subscript r k) ks"

text \<open>The leaves of a nested report, from top to bottom.\<close>

primrec leaves :: "pyval \<Rightarrow> pyval list" where
  "leaves PNone = [PNone]"
| "leaves (PBool b) = [PBool b]"
| "leaves (PInt i) = [PInt i]"
| "leaves (PFloat f) = [PFloat f]"
| "leaves (PStr s) = [PStr s]"
| "leaves (PList xs) = [PList xs]"
| "leaves (PDict kvs) = concat (map snd (map (map_prod id leaves) kvs))"

text \<open>
  A stand-in for \<^verbatim>\<open>repr\<close> where a closed statement needs one; the records used there hold
  no float, list or dictionary at an interpolated position, so it is never consulted.
\<close>

definition blank_repr :: "pyval \<Rightarrow> string" where
  "blank_repr v = []"

definition all_leaves_NA :: "error + pyval \<Rightarrow> bool" where
  "all_leaves_NA r =
     (case r of Inl err \<Rightarrow> False | Inr report \<Rightarrow> list_all (\<lambda>v. v = PStr ''N/A'') (leaves report))"

text \<open>The report that the empty record \<^verbatim>\<open>{}\<close> yields.\<close>

definition empty_report :: pyval where
  "empty_report = PDict [
     (''Institution Overview'', PDict [
        (''Name'', PNone),
        (''Location'', PStr ''N/A, N/A''),
        (''Address'', PStr ''N/A''),
        (''Website'', PStr ''N/A''),
        (''Type'', PStr ''Private''),
        (''Carnegie Classification'', PNone),
        (''Accreditor'', PNone),
        (''Religious Affiliation'', PStr ''None'')]),
     (''Enrollment & Faculty'', PDict [
        (''Student Body'', PDict [
           (''Undergraduate Enrollment'', PStr ''N/A''),
           (''Graduate Enrollment'', PStr ''N/A''),
           (''Part-time Share'', PStr ''N/A'')]),
        (''Faculty'', PDict [
           (''Student-Faculty Ratio'', PStr ''None:1''),
           (''Full-time Faculty Rate'', PStr ''N/A''),
           (''Faculty Salary'', PStr ''N/A'')])]),
     (''Demographics'', PDict [
        (''Gender'', PDict [
           (''Men'', PStr ''N/A''),
           (''Women'', PStr ''N/A'')]),
        (''Student Background'', PDict [
           (''First Generation'', PStr ''N/A''),
           (''Age 25 or Older'', PStr ''N/A''),
           (''Average Age at Entry'', PNone),
           (''Median Family Income'', PStr ''N/A'')])]),
     (''Cost & Financial Aid'', PDict [
        (''Direct Costs'', PDict [
           (''In-State Tuition'', PStr ''N/A''),
           (''Out-of-State Tuition'', PStr ''N/A''),
           (''Room and Board'', PStr ''N/A''),
           (''Books and Supplies'', PStr ''N/A'')]),
        (''Net Price'', PDict [
           (''Average'', PStr ''N/A''),
           (''Low Income (0-30k)'', PStr ''N/A''),
           (''High Income (75k+)'', PStr ''N/A'')]),
        (''Aid & Debt'', PDict [
           (''Pell Grant Recipients'', PStr ''N/A''),
           (''Federal Loan Recipients'', PStr ''N/A''),
           (''Median Debt'', PStr ''N/A'')])]),
     (''Student Success'', PDict [
        (''Retention'', PDict [
           (''First-year Full-time'', PStr ''N/A''),
           (''First-year Part-time'', PStr ''N/A'')]),
        (''Graduation'', PDict [
           (''4-year rate'', PStr ''N/A''),
           (''6-year rate'', PStr ''N/A''),
           (''Transfer-out rate'', PStr ''N/A'')])]),
     (''Career Outcomes'', PDict [
        (''Median Earnings'', PDict [
           (''6 years after entry'', PStr ''N/A''),
           (''8 years after entry'', PStr ''N/A''),
           (''10 years after entry'', PStr ''N/A'')]),
        (''Employment'', PDict [
           (''Earning over $25k/year'', PStr ''N/A'')]),
        (''Loan Repayment'', PDict [
           (''1-year rate'', PStr ''N/A''),
           (''3-year rate'', PStr ''N/A'')])])]"

section \<open>Paths through a record\<close>

text \<open>
  The aggregator reaches a field by a chain of calls
  \<^verbatim>\<open>x.get(k1, {}).get(k2, {}) ... .get(k, d)\<close>.  \<open>chain r ks\<close> is the chain of the calls
  with the default \<^verbatim>\<open>{}\<close>, \<open>lookup r ks k d\<close> the whole chain; on a list that is written
  out both unfold to the nested calls of the source.
\<close>

fun chain :: "error + pyval \<Rightarrow> string list \<Rightarrow> error + pyval" where
  "chain r [] = r"
| "chain r (k # ks) = chain (get r k (PDict [])) ks"

definition lookup :: "error + pyval \<Rightarrow> string list \<Rightarrow> string \<Rightarrow> pyval \<Rightarrow> error + pyval" where
  "lookup r ks k d = get (chain r ks) k d"

text \<open>
  \<open>value_at v ks\<close> is the value that the record \<open>v\<close> holds at the path \<open>ks\<close>, if every key
  of the path is present: the reading of a path that does not depend on \<^verbatim>\<open>get\<close>.
\<close>

fun value_at :: "pyval \<Rightarrow> string list \<Rightarrow> pyval option" where
  "value_at v [] = Some v"
| "value_at (PDict kvs) (k # ks) =
     (case map_of kvs k of None \<Rightarrow> None | Some w \<Rightarrow> value_at w ks)"
| "value_at v (k # ks) = None"

text \<open>
  \<open>mappings_along v ks\<close>: \<open>v\<close> is a mapping, and so is every node that is present on the
  path \<open>ks\<close> below it.  Keys may be missing at any depth.
\<close>

fun mappings_along :: "pyval \<Rightarrow> string list \<Rightarrow> bool" where
  "mappings_along (PDict kvs) [] = True"
| "mappings_along (PDict kvs) (k # ks) =
     (case map_of kvs k of None \<Rightarrow> True | Some w \<Rightarrow> mappings_along w ks)"
| "mappings_along v ks = False"

text \<open>
  The nodes on which \<^verbatim>\<open>get_school_metrics\<close> calls \<^verbatim>\<open>get\<close>: the paths below, and their
  prefixes.  A record is well nested when each of these nodes, where present, is a
  mapping.
\<close>

definition receiver_paths :: "string list list" where
  "receiver_paths =
     [[''school''],
      [''latest'', ''student'', ''enrollment''],
      [''latest'', ''student'', ''demographics''],
      [''latest'', ''student'', ''retention_rate'', ''overall''],
      [''latest'', ''cost'', ''tuition''],
      [''latest'', ''cost'', ''roomboard''],
      [''latest'', ''cost'', ''avg_net_price''],
      [''latest'', ''cost'', ''net_price'', ''public'', ''by_income_level''],
      [''latest'', ''aid'', ''median_debt'', ''completers''],
      [''latest'', ''completion'', ''transfer_rate'', ''4yr''],
      [''latest'', ''earnings'', ''6_yrs_after_entry''],
      [''latest'', ''earnings'', ''8_yrs_after_entry''],
      [''latest'', ''earnings'', ''10_yrs_after_entry''],
      [''latest'', ''repayment'', ''1_yr'', ''rate_suppressed''],
      [''latest'', ''repayment'', ''3_yr'', ''rate_suppressed'']]"

definition well_nested :: "pyval \<Rightarrow> bool" where
  "well_nested r = list_all (mappings_along r) receiver_paths"

text \<open>The value of a field of the record as the aggregator sees it: absent reads as \<open>d\<close>.\<close>

definition value_or :: "pyval \<Rightarrow> string list \<Rightarrow> pyval \<Rightarrow> pyval" where
  "value_or r ks d = (case value_at r ks of None \<Rightarrow> d | Some v \<Rightarrow> v)"

section \<open>The shape of a report\<close>

definition section_names :: "string list" where
  "section_names =
     [''Institution Overview'', ''Enrollment & Faculty'', ''Demographics'',
      ''Cost & Financial Aid'', ''Student Success'', ''Career Outcomes'']"

definition nonempty_mapping :: "pyval \<Rightarrow> bool" where
  "nonempty_mapping v = (case v of PDict kvs \<Rightarrow> kvs \<noteq> [] | _ \<Rightarrow> False)"

definition has_sections :: "pyval \<Rightarrow> bool" where
  "has_sections report =
     (case report of
        PDict kvs \<Rightarrow> map fst kvs = section_names \<and> list_all nonempty_mapping (map snd kvs)
      | _ \<Rightarrow> False)"

section \<open>The total enrollment shown by \<^verbatim>\<open>main\<close>\<close>

text \<open>
  \<open>py_int str_int v\<close> is \<^verbatim>\<open>int(v)\<close>.  A float is truncated towards zero; an infinity
  raises \<^verbatim>\<open>OverflowError\<close>, NaN raises \<^verbatim>\<open>ValueError\<close>; \<^verbatim>\<open>None\<close>, a list and a dictionary
  raise \<^verbatim>\<open>TypeError\<close>.  A string is parsed in base 10: a string that holds a letter
  or a punctuation mark other than a sign or an underscore is no integer literal
  and raises \<^verbatim>\<open>ValueError\<close>.  The reading of the remaining strings (white space,
  underscores, digits beyond ASCII, the length limit of the conversion) is the
  parameter \<open>str_int\<close>.
\<close>

definition non_int_chars :: "char list" where
  "non_int_chars =
     ''ABCDEFGHIJKLMNOPQRSTUVWXYZabcdefghijklmnopqrstuvwxyz!#$%&()*,./:;<=>?@[]^{|}~''"

definition float_trunc :: "pyfloat \<Rightarrow> error + int" where
  "float_trunc f =
     (case f of
        Fl s m e \<Rightarrow>
          (let a = (if 0 \<le> e then int m * 2 ^ nat e else int m div 2 ^ nat (- e))
           in Inr (if s then - a else a))
      | FInf s \<Rightarrow> Inl OverflowError
      | FNaN \<Rightarrow> Inl ValueError)"

fun py_int_value :: "(string \<Rightarrow> error + int) \<Rightarrow> pyval \<Rightarrow> error + int" where
  "py_int_value str_int PNone = Inl TypeError"
| "py_int_value str_int (PBool b) = Inr (if b then 1 else 0)"
| "py_int_value str_int (PInt i) = Inr i"
| "py_int_value str_int (PFloat f) = float_trunc f"
| "py_int_value str_int (PStr s) =
     (if \<exists>c \<in> set s. c \<in> set non_int_chars then Inl ValueError else str_int s)"
| "py_int_value str_int (PList xs) = Inl TypeError"
| "py_int_value str_int (PDict kvs) = Inl TypeError"

definition py_int :: "(string \<Rightarrow> error + int) \<Rightarrow> error + pyval \<Rightarrow> error + int" where
  "py_int str_int a = (case a of Inl err \<Rightarrow> Inl err | Inr v \<Rightarrow> py_int_value str_int v)"

text \<open>
  Lines 172 to 174 of \<^verbatim>\<open>main\<close>:
  \<^verbatim>\<open>
  enroll = metrics["Enrollment & Faculty"]["Student Body"]
  st.metric("Total Enrollment",
      f"{int(enroll['Undergraduate Enrollment']) + int(enroll['Graduate Enrollment']):,}")
  \<close>
  \<open>total_enrollment\<close> is the sum, \<open>total_enrollment_text\<close> the string handed to the widget
  (\<^verbatim>\<open>:,\<close> prints an integer with thousands separators).
\<close>

definition total_enrollment :: "(string \<Rightarrow> error + int) \<Rightarrow> pyval \<Rightarrow> error + int" where
  "total_enrollment str_int metrics =
     (let enroll = subscript (subscript (Inr metrics) ''Enrollment & Faculty'') ''Student Body''
      in case enroll of
           Inl err \<Rightarrow> Inl err
         | Inr _ \<Rightarrow>
             (case py_int str_int (subscript enroll ''Undergraduate Enrollment'') of
                Inl err \<Rightarrow> Inl err
              | Inr u \<Rightarrow>
                  (case py_int str_int (subscript enroll ''Graduate Enrollment'') of
                     Inl err \<Rightarrow> Inl err
                   | Inr g \<Rightarrow> Inr (u + g))))"

definition int_commas :: "int \<Rightarrow> string" where
  "int_commas i =
     (if i < 0 then CHR ''-'' # group3 (digits10 (nat (- i))) else group3 (digits10 (nat i)))"

definition total_enrollment_text :: "(string \<Rightarrow> error + int) \<Rightarrow> pyval \<Rightarrow> error + string" where
  "total_enrollment_text str_int metrics =
     (case total_enrollment str_int metrics of
        Inl err \<Rightarrow> Inl err
      | Inr n \<Rightarrow> Inr (int_commas n))"

text \<open>A stand-in for the unmodelled part of \<^verbatim>\<open>int\<close> on strings, for closed statements.\<close>

definition no_str_int :: "string \<Rightarrow> error + int" where
  "no_str_int s = Inl ValueError"

section \<open>A fully populated record\<close>

text \<open>
  The floats are exact doubles: \<open>0.5\<close>, \<open>0.25\<close>, \<open>0.75\<close>, \<open>0.125\<close>, \<open>0.875\<close>,
  \<open>0.9375\<close>, and the doubles nearest to \<open>0.153\<close> and to \<open>12345.6\<close>.
\<close>

definition sample_record :: pyval where
  "sample_record = PDict [
     (''id'', PInt 100001),
     (''school'', PDict [
        (''name'', PStr ''Sample University''),
        (''city'', PStr ''Springfield''),
        (''state'', PStr ''IL''),
        (''address'', PStr ''1 College Road''),
        (''school_url'', PStr ''www.sample.edu''),
        (''ownership'', PInt 1),
        (''carnegie_basic'', PInt 15),
        (''accreditor'', PStr ''Higher Learning Commission''),
        (''religious_affiliation'', PInt (- 2)),
        (''ft_faculty_rate'', PFloat (Fl False 7 (- 3))),
        (''faculty_salary'', PInt 10500)]),
     (''latest'', PDict [
        (''student'', PDict [
           (''size'', PInt 35000),
           (''enrollment'', PDict [
              (''undergrad_12_month'', PInt 21000),
              (''grad_12_month'', PInt 14000)]),
           (''part_time_share'', PFloat (Fl False 5512405943901487 (- 55))),
           (''demographics'', PDict [
              (''student_faculty_ratio'', PInt 7),
              (''men'', PFloat (Fl False 1 (- 1))),
              (''women'', PFloat (Fl False 1 (- 1))),
              (''age_entry'', PInt 20),
              (''median_family_income'', PFloat (Fl False 6787065375935693 (- 39)))]),
           (''share_firstgeneration'', PFloat (Fl False 1 (- 2))),
           (''share_25_older'', PFloat (Fl False 1 (- 3))),
           (''students_with_pell_grant'', PFloat (Fl False 1 (- 2))),
           (''retention_rate'', PDict [
              (''overall'', PDict [
                 (''full_time'', PFloat (Fl False 15 (- 4))),
                 (''part_time'', PFloat (Fl False 1 (- 1)))])])]),
        (''cost'', PDict [
           (''tuition'', PDict [
              (''in_state'', PInt 12000),
              (''out_of_state'', PInt 36000)]),
           (''roomboard'', PDict [(''oncampus'', PInt 11000)]),
           (''booksupply'', PInt 1200),
           (''avg_net_price'', PDict [(''overall'', PInt 15000)]),
           (''net_price'', PDict [
              (''public'', PDict [
                 (''by_income_level'', PDict [
                    (''0-30000'', PInt 4000),
                    (''75000-plus'', PInt 22000)])])])]),
        (''aid'', PDict [
           (''federal_loan_rate'', PFloat (Fl False 1 (- 2))),
           (''median_debt'', PDict [
              (''completers'', PDict [(''overall'', PInt 19500)])])]),
        (''completion'', PDict [
           (''completion_rate_4yr_150nt'', PFloat (Fl False 3 (- 2))),
           (''transfer_rate'', PDict [
              (''4yr'', PDict [(''full_time'', PFloat (Fl False 1 (- 3)))])])]),
        (''earnings'', PDict [
           (''6_yrs_after_entry'', PDict [
              (''median'', PInt 45000),
              (''percent_greater_than_25000'', PFloat (Fl False 3 (- 2)))]),
           (''8_yrs_after_entry'', PDict [(''median_earnings'', PInt 52000)]),
           (''10_yrs_after_entry'', PDict [(''median'', PInt 61000)])]),
        (''repayment'', PDict [
           (''1_yr'', PDict [
              (''rate_suppressed'', PDict [(''overall'', PFloat (Fl False 1 (- 1)))])]),
           (''3_yr'', PDict [
              (''rate_suppressed'', PDict [(''overall'', PFloat (Fl False 3 (- 2)))])])])])]"

section \<open>Predicates on results\<close>

text \<open>
  \<open>no_attr c\<close>: the expression \<open>c\<close> does not raise \<^verbatim>\<open>AttributeError\<close>, the exception of
  a \<^verbatim>\<open>get\<close> on a value that is no dictionary.  \<open>dict_res c\<close>: it yields a dictionary.
  \<open>returns c\<close>: it yields a value.
\<close>

definition no_attr :: "error + 'a \<Rightarrow> bool" where
  "no_attr c = (c \<noteq> Inl AttributeError)"

definition dict_res :: "error + pyval \<Rightarrow> bool" where
  "dict_res c = (\<exists>kvs. c = Inr (PDict kvs))"

definition returns :: "error + 'a \<Rightarrow> bool" where
  "returns c = (case c of Inl err \<Rightarrow> False | Inr v \<Rightarrow> True)"

fun piece_ok :: "piece \<Rightarrow> bool" where
  "piece_ok (Lit s) = True"
| "piece_ok (Expr c) = no_attr c"

fun piece_returns :: "piece \<Rightarrow> bool" where
  "piece_returns (Lit s) = True"
| "piece_returns (Expr c) = returns c"

section \<open>Records on which every formatter call succeeds\<close>

text \<open>
  The fields that \<^verbatim>\<open>get_school_metrics\<close> hands to \<^verbatim>\<open>format_percentage\<close> and to
  \<^verbatim>\<open>format_currency\<close>, by their paths from the root of the record.  \<open>formattable r\<close>:
  neither formatter raises on the value it is given, where an absent field reads as
  \<^verbatim>\<open>None\<close>.
\<close>

definition percentage_paths :: "string list list" where
  "percentage_paths =
     [[''latest'', ''student'', ''part_time_share''],
      [''school'', ''ft_faculty_rate''],
      [''latest'', ''student'', ''demographics'', ''men''],
      [''latest'', ''student'', ''demographics'', ''women''],
      [''latest'', ''student'', ''share_firstgeneration''],
      [''latest'', ''student'', ''share_25_older''],
      [''latest'', ''student'', ''students_with_pell_grant''],
      [''latest'', ''aid'', ''federal_loan_rate''],
      [''latest'', ''student'', ''retention_rate'', ''overall'', ''full_time''],
      [''latest'', ''student'', ''retention_rate'', ''overall'', ''part_time''],
      [''latest'', ''completion'', ''completion_rate_4yr_150nt''],
      [''latest'', ''completion'', ''transfer_rate'', ''4yr'', ''full_time''],
      [''latest'', ''earnings'', ''6_yrs_after_entry'', ''percent_greater_than_25000''],
      [''latest'', ''repayment'', ''1_yr'', ''rate_suppressed'', ''overall''],
      [''latest'', ''repayment'', ''3_yr'', ''rate_suppressed'', ''overall'']]"

definition currency_paths :: "string list list" where
  "currency_paths =
     [[''school'', ''faculty_salary''],
      [''latest'', ''student'', ''demographics'', ''median_family_income''],
      [''latest'', ''cost'', ''tuition'', ''in_state''],
      [''latest'', ''cost'', ''tuition'', ''out_of_state''],
      [''latest'', ''cost'', ''roomboard'', ''oncampus''],
      [''latest'', ''cost'', ''booksupply''],
      [''latest'', ''cost'', ''avg_net_price'', ''overall''],
      [''latest'', ''cost'', ''net_price'', ''public'', ''by_income_level'', ''0-30000''],
      [''latest'', ''cost'', ''net_price'', ''public'', ''by_income_level'', ''75000-plus''],
      [''latest'', ''aid'', ''median_debt'', ''completers'', ''overall''],
      [''latest'', ''earnings'', ''6_yrs_after_entry'', ''median''],
      [''latest'', ''earnings'', ''8_yrs_after_entry'', ''median_earnings''],
      [''latest'', ''earnings'', ''10_yrs_after_entry'', ''median'']]"

definition formattable :: "pyval \<Rightarrow> bool" where
  "formattable r =
     (list_all (\<lambda>p. returns (format_percentage (value_or r p PNone))) percentage_paths \<and>
      list_all (\<lambda>p. returns (format_currency (value_or r p PNone))) currency_paths)"

text \<open>The report of \<open>sample_record\<close>.\<close>

definition sample_report :: pyval where
  "sample_report = PDict [
     (''Institution Overview'', PDict [
        (''Name'', PStr ''Sample University''),
        (''Location'', PStr ''Springfield, IL''),
        (''Address'', PStr ''1 College Road''),
        (''Website'', PStr ''https://www.sample.edu''),
        (''Type'', PStr ''Public''),
        (''Carnegie Classification'', PInt 15),
        (''Accreditor'', PStr ''Higher Learning Commission''),
        (''Religious Affiliation'', PInt (- 2))]),
     (''Enrollment & Faculty'', PDict [
        (''Student Body'', PDict [
           (''Undergraduate Enrollment'', PInt 21000),
           (''Graduate Enrollment'', PInt 14000),
           (''Part-time Share'', PStr ''15.3%'')]),
        (''Faculty'', PDict [
           (''Student-Faculty Ratio'', PStr ''7:1''),
           (''Full-time Faculty Rate'', PStr ''87.5%''),
           (''Faculty Salary'', PStr ''$10,500.00'')])]),
     (''Demographics'', PDict [
        (''Gender'', PDict [
           (''Men'', PStr ''50.0%''),
           (''Women'', PStr ''50.0%'')]),
        (''Student Background'', PDict [
           (''First Generation'', PStr ''25.0%''),
           (''Age 25 or Older'', PStr ''12.5%''),
           (''Average Age at Entry'', PInt 20),
           (''Median Family Income'', PStr ''$12,345.60'')])]),
     (''Cost & Financial Aid'', PDict [
        (''Direct Costs'', PDict [
           (''In-State Tuition'', PStr ''$12,000.00''),
           (''Out-of-State Tuition'', PStr ''$36,000.00''),
           (''Room and Board'', PStr ''$11,000.00''),
           (''Books and Supplies'', PStr ''$1,200.00'')]),
        (''Net Price'', PDict [
           (''Average'', PStr ''$15,000.00''),
           (''Low Income (0-30k)'', PStr ''$4,000.00''),
           (''High Income (75k+)'', PStr ''$22,000.00'')]),
        (''Aid & Debt'', PDict [
           (''Pell Grant Recipients'', PStr ''25.0%''),
           (''Federal Loan Recipients'', PStr ''25.0%''),
           (''Median Debt'', PStr ''$19,500.00'')])]),
     (''Student Success'', PDict [
        (''Retention'', PDict [
           (''First-year Full-time'', PStr ''93.8%''),
           (''First-year Part-time'', PStr ''50.0%'')]),
        (''Graduation'', PDict [
           (''4-year rate'', PStr ''75.0%''),
           (''6-year rate'', PStr ''75.0%''),
           (''Transfer-out rate'', PStr ''12.5%'')])]),
     (''Career Outcomes'', PDict [
        (''Median Earnings'', PDict [
           (''6 years after entry'', PStr ''$45,000.00''),
           (''8 years after entry'', PStr ''$52,000.00''),
           (''10 years after entry'', PStr ''$61,000.00'')]),
        (''Employment'', PDict [
           (''Earning over $25k/year'', PStr ''75.0%'')]),
        (''Loan Repayment'', PDict [
           (''1-year rate'', PStr ''50.0%''),
           (''3-year rate'', PStr ''75.0%'')])])]"

text \<open>A record with keys missing at several depths, and one with a null where a mapping is expected.\<close>

definition partial_record :: pyval where
  "partial_record = PDict [
     (''school'', PDict [(''name'', PStr ''Sample College''), (''ownership'', PInt 2)]),
     (''latest'', PDict [
        (''student'', PDict [
           (''enrollment'', PDict [(''grad_12_month'', PInt 14000)]),
           (''demographics'', PDict [(''men'', PFloat (Fl False 1 (- 1)))])]),
        (''cost'', PDict [(''tuition'', PDict [])])])]"

definition null_latest_record :: pyval where
  "null_latest_record = PDict [(''latest'', PNone)]"

section \<open>Reading a formatted number back\<close>

text \<open>
  What a formatted string says is stated by reading it, independently of how it was
  printed.  \<open>read_fixed c p s\<close> accepts an optional minus sign, an integer part, a point
  and exactly \<open>p\<close> decimal digits; with \<open>c\<close> set the integer part must carry a comma
  before every group of three digits, counted from the right, and nowhere else.  It
  returns the sign and the number in units of \<open>10\<^sup>-\<^sup>p\<close>.  \<open>read_money\<close> expects a
  leading dollar sign and two decimals, \<open>read_percent\<close> one decimal and a final
  percent sign.  \<open>float_mag m e\<close> is the magnitude \<open>m * 2\<^sup>e\<close> of a float as a rational.
\<close>

definition is_digit :: "char \<Rightarrow> bool" where
  "is_digit c = (c \<in> set ''0123456789'')"

definition digit_val :: "char \<Rightarrow> nat" where
  "digit_val c = length (takeWhile (\<lambda>d. d \<noteq> c) ''0123456789'')"

definition read_digits :: "string \<Rightarrow> nat" where
  "read_digits ds = foldl (\<lambda>a c. 10 * a + digit_val c) 0 ds"

definition strip_commas :: "string \<Rightarrow> string" where
  "strip_commas s = filter (\<lambda>c. c \<noteq> CHR '','') s"

fun grouped_rev :: "string \<Rightarrow> bool" where
  "grouped_rev (d1 # d2 # d3 # c # rest) =
     (is_digit d1 \<and> is_digit d2 \<and> is_digit d3 \<and> c = CHR '','' \<and> grouped_rev rest)"
| "grouped_rev [] = False"
| "grouped_rev ds = list_all is_digit ds"

definition well_grouped :: "string \<Rightarrow> bool" where
  "well_grouped s = grouped_rev (rev s)"

definition read_fixed :: "bool \<Rightarrow> nat \<Rightarrow> string \<Rightarrow> (bool \<times> nat) option" where
  "read_fixed c p s =
     (let neg = (s \<noteq> [] \<and> hd s = CHR ''-'');
          body = (if neg then tl s else s);
          ip = takeWhile (\<lambda>x. x \<noteq> CHR ''.'') body;
          fp = drop (Suc (length ip)) body
      in if length body = length ip + 1 + p \<and> list_all is_digit fp \<and>
            (if c then well_grouped ip else ip \<noteq> [] \<and> list_all is_digit ip)
         then Some (neg, read_digits (strip_commas ip) * 10 ^ p + read_digits fp)
         else None)"

definition float_mag :: "nat \<Rightarrow> int \<Rightarrow> rat" where
  "float_mag m e = (if 0 \<le> e then of_nat m * 2 ^ nat e else of_nat m / 2 ^ nat (- e))"


definition read_money :: "string \<Rightarrow> (bool \<times> nat) option" where
  "read_money s =
     (case s of [] \<Rightarrow> None | c # rest \<Rightarrow> if c = CHR ''$'' then read_fixed True 2 rest else None)"

definition read_percent :: "string \<Rightarrow> (bool \<times> nat) option" where
  "read_percent s =
     (if s \<noteq> [] \<and> last s = CHR ''%'' then read_fixed False 1 (butlast s) else None)"

section \<open>An explicit store\<close>

text \<open>
  Whether the aggregator leaves its argument alone is a question about the objects
  behind it, so here the dictionaries and lists live in a store.  A value is a scalar
  or the address of an object; an address is an index into the store, and allocation
  appends.  \<open>abs_val h v\<close> reads the value behind \<open>v\<close> as a \<open>pyval\<close>; an object is read in
  the store below its own address, which is all it can refer to when objects are built
  after their parts, as the JSON decoder and a dictionary display build them.
\<close>

datatype hval = HNone | HBool bool | HInt int | HFloat pyfloat | HStr string | HRef nat

datatype obj = ODict "(string \<times> hval) list" | OList "hval list"

type_synonym heap = "obj list"

type_synonym 'a comp = "heap \<Rightarrow> (error + 'a) \<times> heap"

function abs_val :: "heap \<Rightarrow> hval \<Rightarrow> pyval" where
  "abs_val h HNone = PNone"
| "abs_val h (HBool b) = PBool b"
| "abs_val h (HInt i) = PInt i"
| "abs_val h (HFloat f) = PFloat f"
| "abs_val h (HStr s) = PStr s"
| "abs_val h (HRef a) =
     (if a < length h then
        (case h ! a of
           ODict kvs \<Rightarrow> PDict (map (\<lambda>kx. (fst kx, abs_val (take a h) (snd kx))) kvs)
         | OList xs \<Rightarrow> PList (map (abs_val (take a h)) xs))
      else PNone)"
  by pat_completeness auto
termination
  by (relation "measure (\<lambda>(h, v). length h)") auto

text \<open>
  \<open>valid h v\<close>: the address \<open>v\<close> is allocated in \<open>h\<close>.  \<open>wf_heap h\<close>: every object refers
  to objects below itself only.  \<open>ext h h'\<close>: \<open>h'\<close> is \<open>h\<close> with objects added; every object
  of \<open>h\<close> is still there, unchanged, at its address.
\<close>

fun valid :: "heap \<Rightarrow> hval \<Rightarrow> bool" where
  "valid h (HRef a) = (a < length h)"
| "valid h v = True"

fun obj_values :: "obj \<Rightarrow> hval list" where
  "obj_values (ODict kvs) = map snd kvs"
| "obj_values (OList xs) = xs"

definition wf_heap :: "heap \<Rightarrow> bool" where
  "wf_heap h = list_all (\<lambda>a. list_all (valid (take a h)) (obj_values (h ! a))) [0..<length h]"

definition ext :: "heap \<Rightarrow> heap \<Rightarrow> bool" where
  "ext h h' = (length h \<le> length h' \<and> take (length h) h' = h)"

text \<open>
  The operations of the aggregator on the store.  Each mirrors its counterpart above;
  \<^verbatim>\<open>{}\<close> and a dictionary display allocate a new object, nothing writes to an old one.
  A formatter reads its argument and returns a new string.  (On a list,
  \<^verbatim>\<open>decimal * 100\<close> allocates a list that is dropped when the \<^verbatim>\<open>format\<close> that follows raises
  \<^verbatim>\<open>TypeError\<close>; that garbage is not allocated here.)
\<close>

definition hret :: "hval \<Rightarrow> hval comp" where
  "hret v h = (Inr v, h)"

definition new_dict :: "hval comp" where
  "new_dict h = (Inr (HRef (length h)), h @ [ODict []])"

definition hget :: "hval comp \<Rightarrow> string \<Rightarrow> hval comp \<Rightarrow> hval comp" where
  "hget r k d h =
     (case r h of
        (Inl err, h1) \<Rightarrow> (Inl err, h1)
      | (Inr (HRef a), h1) \<Rightarrow>
          (if a < length h1 then
             (case h1 ! a of
                ODict kvs \<Rightarrow>
                  (case d h1 of
                     (Inl err, h2) \<Rightarrow> (Inl err, h2)
                   | (Inr dv, h2) \<Rightarrow> (Inr (case map_of kvs k of None \<Rightarrow> dv | Some v \<Rightarrow> v), h2))
              | OList xs \<Rightarrow> (Inl AttributeError, h1))
           else (Inl AttributeError, h1))
      | (Inr _, h1) \<Rightarrow> (Inl AttributeError, h1))"

fun scalar :: "pyval \<Rightarrow> hval" where
  "scalar PNone = HNone"
| "scalar (PBool b) = HBool b"
| "scalar (PInt i) = HInt i"
| "scalar (PFloat f) = HFloat f"
| "scalar (PStr s) = HStr s"
| "scalar v = HNone"

definition hcall :: "(pyval \<Rightarrow> error + pyval) \<Rightarrow> hval comp \<Rightarrow> hval comp" where
  "hcall f a h =
     (case a h of
        (Inl err, h1) \<Rightarrow> (Inl err, h1)
      | (Inr v, h1) \<Rightarrow>
          (case f (abs_val h1 v) of Inl err \<Rightarrow> (Inl err, h1) | Inr y \<Rightarrow> (Inr (scalar y), h1)))"

fun heval_items :: "(string \<times> hval comp) list \<Rightarrow> (string \<times> hval) list comp" where
  "heval_items [] h = (Inr [], h)"
| "heval_items ((k, c) # rest) h =
     (case c h of
        (Inl err, h1) \<Rightarrow> (Inl err, h1)
      | (Inr v, h1) \<Rightarrow>
          (case heval_items rest h1 of
             (Inl err, h2) \<Rightarrow> (Inl err, h2)
           | (Inr kvs, h2) \<Rightarrow> (Inr ((k, v) # kvs), h2)))"

definition hdisplay :: "(string \<times> hval comp) list \<Rightarrow> hval comp" where
  "hdisplay items h =
     (case heval_items items h of
        (Inl err, h1) \<Rightarrow> (Inl err, h1)
      | (Inr kvs, h1) \<Rightarrow> (Inr (HRef (length h1)), h1 @ [ODict kvs]))"

datatype hpiece = HLit string | HExpr "hval comp"

fun hjoin_pieces :: "(pyval \<Rightarrow> string) \<Rightarrow> hpiece list \<Rightarrow> string comp" where
  "hjoin_pieces py_repr [] h = (Inr [], h)"
| "hjoin_pieces py_repr (HLit s # ps) h =
     (case hjoin_pieces py_repr ps h of
        (Inl err, h1) \<Rightarrow> (Inl err, h1)
      | (Inr t, h1) \<Rightarrow> (Inr (s @ t), h1))"
| "hjoin_pieces py_repr (HExpr c # ps) h =
     (case c h of
        (Inl err, h1) \<Rightarrow> (Inl err, h1)
      | (Inr v, h1) \<Rightarrow>
          (case hjoin_pieces py_repr ps h1 of
             (Inl err, h2) \<Rightarrow> (Inl err, h2)
           | (Inr t, h2) \<Rightarrow> (Inr (py_str py_repr (abs_val h1 v) @ t), h2)))"

definition hfstring :: "(pyval \<Rightarrow> string) \<Rightarrow> hpiece list \<Rightarrow> hval comp" where
  "hfstring py_repr ps h =
     (case hjoin_pieces py_repr ps h of
        (Inl err, h1) \<Rightarrow> (Inl err, h1)
      | (Inr t, h1) \<Rightarrow> (Inr (HStr t), h1))"

definition hif_else :: "hval comp \<Rightarrow> hval comp \<Rightarrow> hval comp \<Rightarrow> hval comp" where
  "hif_else a c b h =
     (case c h of
        (Inl err, h1) \<Rightarrow> (Inl err, h1)
      | (Inr v, h1) \<Rightarrow> if py_truthy (abs_val h1 v) then a h1 else b h1)"

definition heq_int :: "hval comp \<Rightarrow> int \<Rightarrow> hval comp" where
  "heq_int r n h =
     (case r h of
        (Inl err, h1) \<Rightarrow> (Inl err, h1)
      | (Inr v, h1) \<Rightarrow> (Inr (HBool (py_eq_int (abs_val h1 v) n)), h1))"

text \<open>\<^verbatim>\<open>get_school_metrics\<close> once more, item by item as above, on the store.\<close>

definition get_school_metrics_heap :: "(pyval \<Rightarrow> string) \<Rightarrow> hval \<Rightarrow> hval comp" where
  "get_school_metrics_heap py_repr school_data h =
    (case hget (hret school_data) ''latest'' new_dict h of
       (Inl err, h1) \<Rightarrow> (Inl err, h1)
     | (Inr latest_value, h1) \<Rightarrow>
    (case hget (hret school_data) ''school'' new_dict h1 of
       (Inl err, h2) \<Rightarrow> (Inl err, h2)
     | (Inr school_value, h2) \<Rightarrow>
    (let latest = hret latest_value; school = hret school_value in
     hdisplay [
      (''Institution Overview'', hdisplay [
        (''Name'', hget school ''name'' (hret HNone)),
        (''Location'', hfstring py_repr
           [HExpr (hget school ''city'' (hret (HStr ''N/A''))), HLit '', '',
            HExpr (hget school ''state'' (hret (HStr ''N/A'')))]),
        (''Address'', hget school ''address'' (hret (HStr ''N/A''))),
        (''Website'',
           hif_else (hfstring py_repr [HLit ''https://'', HExpr (hget school ''school_url'' (hret HNone))])
             (hget school ''school_url'' (hret HNone))
             (hret (HStr ''N/A''))),
        (''Type'',
           hif_else (hret (HStr ''Public''))
             (heq_int (hget school ''ownership'' (hret HNone)) 1)
             (hret (HStr ''Private''))),
        (''Carnegie Classification'', hget school ''carnegie_basic'' (hret HNone)),
        (''Accreditor'', hget school ''accreditor'' (hret HNone)),
        (''Religious Affiliation'', hget school ''religious_affiliation'' (hret (HStr ''None'')))]),
      (''Enrollment & Faculty'', hdisplay [
        (''Student Body'', hdisplay [
          (''Undergraduate Enrollment'',
             hget (hget (hget latest ''student'' new_dict) ''enrollment'' new_dict)
               ''undergrad_12_month'' (hret (HStr ''N/A''))),
          (''Graduate Enrollment'',
             hget (hget (hget latest ''student'' new_dict) ''enrollment'' new_dict)
               ''grad_12_month'' (hret (HStr ''N/A''))),
          (''Part-time Share'', hcall format_percentage
             (hget (hget latest ''student'' new_dict) ''part_time_share'' (hret HNone)))]),
        (''Faculty'', hdisplay [
          (''Student-Faculty Ratio'', hfstring py_repr
             [HExpr (hget (hget (hget latest ''student'' new_dict) ''demographics'' new_dict)
                ''student_faculty_ratio'' (hret HNone)),
              HLit '':1'']),
          (''Full-time Faculty Rate'', hcall format_percentage
             (hget school ''ft_faculty_rate'' (hret HNone))),
          (''Faculty Salary'', hcall format_currency
             (hget school ''faculty_salary'' (hret HNone)))])]),
      (''Demographics'', hdisplay [
        (''Gender'', hdisplay [
          (''Men'', hcall format_percentage
             (hget (hget (hget latest ''student'' new_dict) ''demographics'' new_dict)
                ''men'' (hret HNone))),
          (''Women'', hcall format_percentage
             (hget (hget (hget latest ''student'' new_dict) ''demographics'' new_dict)
                ''women'' (hret HNone)))]),
        (''Student Background'', hdisplay [
          (''First Generation'', hcall format_percentage
             (hget (hget latest ''student'' new_dict) ''share_firstgeneration'' (hret HNone))),
          (''Age 25 or Older'', hcall format_percentage
             (hget (hget latest ''student'' new_dict) ''share_25_older'' (hret HNone))),
          (''Average Age at Entry'',
             hget (hget (hget latest ''student'' new_dict) ''demographics'' new_dict)
               ''age_entry'' (hret HNone)),
          (''Median Family Income'', hcall format_currency
             (hget (hget (hget latest ''student'' new_dict) ''demographics'' new_dict)
                ''median_family_income'' (hret HNone)))])]),
      (''Cost & Financial Aid'', hdisplay [
        (''Direct Costs'', hdisplay [
          (''In-State Tuition'', hcall format_currency
             (hget (hget (hget latest ''cost'' new_dict) ''tuition'' new_dict)
                ''in_state'' (hret HNone))),
          (''Out-of-State Tuition'', hcall format_currency
             (hget (hget (hget latest ''cost'' new_dict) ''tuition'' new_dict)
                ''out_of_state'' (hret HNone))),
          (''Room and Board'', hcall format_currency
             (hget (hget (hget latest ''cost'' new_dict) ''roomboard'' new_dict)
                ''oncampus'' (hret HNone))),
          (''Books and Supplies'', hcall format_currency
             (hget (hget latest ''cost'' new_dict) ''booksupply'' (hret HNone)))]),
        (''Net Price'', hdisplay [
          (''Average'', hcall format_currency
             (hget (hget (hget latest ''cost'' new_dict) ''avg_net_price'' new_dict)
                ''overall'' (hret HNone))),
          (''Low Income (0-30k)'', hcall format_currency
             (hget (hget (hget (hget (hget latest ''cost'' new_dict) ''net_price'' new_dict)
                ''public'' new_dict) ''by_income_level'' new_dict) ''0-30000'' (hret HNone))),
          (''High Income (75k+)'', hcall format_currency
             (hget (hget (hget (hget (hget latest ''cost'' new_dict) ''net_price'' new_dict)
                ''public'' new_dict) ''by_income_level'' new_dict) ''75000-plus'' (hret HNone)))]),
        (''Aid & Debt'', hdisplay [
          (''Pell Grant Recipients'', hcall format_percentage
             (hget (hget latest ''student'' new_dict) ''students_with_pell_grant'' (hret HNone))),
          (''Federal Loan Recipients'', hcall format_percentage
             (hget (hget latest ''aid'' new_dict) ''federal_loan_rate'' (hret HNone))),
          (''Median Debt'', hcall format_currency
             (hget (hget (hget (hget latest ''aid'' new_dict) ''median_debt'' new_dict)
                ''completers'' new_dict) ''overall'' (hret HNone)))])]),
      (''Student Success'', hdisplay [
        (''Retention'', hdisplay [
          (''First-year Full-time'', hcall format_percentage
             (hget (hget (hget (hget latest ''student'' new_dict) ''retention_rate'' new_dict)
                ''overall'' new_dict) ''full_time'' (hret HNone))),
          (''First-year Part-time'', hcall format_percentage
             (hget (hget (hget (hget latest ''student'' new_dict) ''retention_rate'' new_dict)
                ''overall'' new_dict) ''part_time'' (hret HNone)))]),
        (''Graduation'', hdisplay [
          (''4-year rate'', hcall format_percentage
             (hget (hget latest ''completion'' new_dict) ''completion_rate_4yr_150nt'' (hret HNone))),
          (''6-year rate'', hcall format_percentage
             (hget (hget latest ''completion'' new_dict) ''completion_rate_4yr_150nt'' (hret HNone))),
          (''Transfer-out rate'', hcall format_percentage
             (hget (hget (hget (hget latest ''completion'' new_dict) ''transfer_rate'' new_dict)
                ''4yr'' new_dict) ''full_time'' (hret HNone)))])]),
      (''Career Outcomes'', hdisplay [
        (''Median Earnings'', hdisplay [
          (''6 years after entry'', hcall format_currency
             (hget (hget (hget latest ''earnings'' new_dict) ''6_yrs_after_entry'' new_dict)
                ''median'' (hret HNone))),
          (''8 years after entry'', hcall format_currency
             (hget (hget (hget latest ''earnings'' new_dict) ''8_yrs_after_entry'' new_dict)
                ''median_earnings'' (hret HNone))),
          (''10 years after entry'', hcall format_currency
             (hget (hget (hget latest ''earnings'' new_dict) ''10_yrs_after_entry'' new_dict)
                ''median'' (hret HNone)))]),
        (''Employment'', hdisplay [
          (''Earning over $25k/year'', hcall format_percentage
             (hget (hget (hget latest ''earnings'' new_dict) ''6_yrs_after_entry'' new_dict)
                ''percent_greater_than_25000'' (hret HNone)))]),
        (''Loan Repayment'', hdisplay [
          (''1-year rate'', hcall format_percentage
             (hget (hget (hget (hget latest ''repayment'' new_dict) ''1_yr'' new_dict)
                ''rate_suppressed'' new_dict) ''overall'' (hret HNone))),
          (''3-year rate'', hcall format_percentage
             (hget (hget (hget (hget latest ''repayment'' new_dict) ''3_yr'' new_dict)
                ''rate_suppressed'' new_dict) ''overall'' (hret HNone)))])])] h2)))"

text \<open>
  \<open>refines h0 m c\<close>: from every well-formed store that extends \<open>h0\<close>, the computation \<open>m\<close>
  only adds objects, keeps the store well formed, and raises or returns what the
  expression \<open>c\<close> of the model without a store does.
\<close>

definition refines :: "heap \<Rightarrow> hval comp \<Rightarrow> error + pyval \<Rightarrow> bool" where
  "refines h0 m c =
     (\<forall>h. ext h0 h \<and> wf_heap h \<longrightarrow>
        (case m h of
           (Inl err, h') \<Rightarrow> ext h h' \<and> wf_heap h' \<and> c = Inl err
         | (Inr v, h') \<Rightarrow> ext h h' \<and> wf_heap h' \<and> valid h' v \<and> c = Inr (abs_val h' v)))"

fun piece_rel :: "heap \<Rightarrow> hpiece \<Rightarrow> piece \<Rightarrow> bool" where
  "piece_rel h0 (HLit s) (Lit t) = (s = t)"
| "piece_rel h0 (HExpr m) (Expr c) = refines h0 m c"
| "piece_rel h0 p q = False"

text \<open>
  What a caller sees of an outcome: the exception, or the value behind the result.
\<close>

definition observe :: "heap \<Rightarrow> error + hval \<Rightarrow> error + pyval" where
  "observe h r = (case r of Inl err \<Rightarrow> Inl err | Inr v \<Rightarrow> Inr (abs_val h v))"

text \<open>
  A store holding \<open>partial_record\<close> at address 7, built bottom-up.
\<close>

definition sample_store :: heap where
  "sample_store = [
     ODict [(''name'', HStr ''Sample College''), (''ownership'', HInt 2)],
     ODict [(''grad_12_month'', HInt 14000)],
     ODict [(''men'', HFloat (Fl False 1 (- 1)))],
     ODict [(''enrollment'', HRef 1), (''demographics'', HRef 2)],
     ODict [],
     ODict [(''tuition'', HRef 4)],
     ODict [(''student'', HRef 3), (''cost'', HRef 5)],
     ODict [(''school'', HRef 0), (''latest'', HRef 6)]]"

(* END OF DEFINITIONS *)

section \<open>Properties\<close>

subsection \<open>Evaluation rules\<close>

lemma get_Inl [simp]: "get (Inl err) k d = Inl err"
  by (simp add: get_def)

lemma get_PDict [simp]:
  "get (Inr (PDict kvs)) k d = Inr (case map_of kvs k of None \<Rightarrow> d | Some v \<Rightarrow> v)"
  by (simp add: get_def)

lemma call_Inl [simp]: "call f (Inl err) = Inl err"
  by (simp add: call_def)

lemma call_Inr [simp]: "call f (Inr v) = f v"
  by (simp add: call_def)

lemma format_currency_None [simp]: "format_currency PNone = Inr (PStr ''N/A'')"
  by (simp add: format_currency_def)

lemma format_percentage_None [simp]: "format_percentage PNone = Inr (PStr ''N/A'')"
  by (simp add: format_percentage_def)

lemma dict_display_Nil_iff: "dict_display [] = Inr rep \<longleftrightarrow> rep = PDict []"
  by (auto simp: dict_display_def)

lemma dict_display_Cons_iff:
  "dict_display ((k, c) # items) = Inr rep \<longleftrightarrow>
     (\<exists>v kvs. c = Inr v \<and> dict_display items = Inr (PDict kvs) \<and> rep = PDict ((k, v) # kvs))"
  by (cases c) (auto simp: dict_display_def split: sum.splits)

lemma field_Inl [simp]: "field (Inl err) ks = Inl err"
  by (induction ks) (simp_all add: subscript_def)

lemma subscript_PDict [simp]:
  "subscript (Inr (PDict kvs)) k = (case map_of kvs k of None \<Rightarrow> Inl KeyError | Some v \<Rightarrow> Inr v)"
  by (simp add: subscript_def)

lemma chain_Inl [simp]: "chain (Inl err) ks = Inl err"
  by (induction ks) simp_all

lemma chain_empty_dict [simp]: "chain (Inr (PDict [])) ks = Inr (PDict [])"
  by (induction ks) simp_all

lemma chain_mappings:
  "mappings_along v ks \<Longrightarrow> \<exists>kvs. chain (Inr v) ks = Inr (PDict kvs)"
proof (induction v ks rule: mappings_along.induct)
  case (2 kvs k ks)
  then show ?case by (cases "map_of kvs k") simp_all
qed simp_all

lemma chain_Inr_value:
  "chain (Inr v) ks = Inr w \<Longrightarrow> w = (case value_at v ks of None \<Rightarrow> PDict [] | Some x \<Rightarrow> x)"
proof (induction ks arbitrary: v)
  case Nil
  then show ?case by simp
next
  case (Cons k ks)
  show ?case
  proof (cases v)
    case (PDict kvs)
    with Cons show ?thesis by (cases "map_of kvs k") auto
  qed (use Cons.prems in \<open>simp_all add: get_def\<close>)
qed

lemma value_at_append:
  "value_at v (ks @ [k]) =
     (case value_at v ks of
        Some (PDict kvs) \<Rightarrow> map_of kvs k
      | _ \<Rightarrow> None)"
proof (induction v ks rule: value_at.induct)
  case (1 v)
  then show ?case by (cases v) (simp_all split: option.splits)
next
  case (2 kvs k' ks)
  then show ?case by (cases "map_of kvs k'") simp_all
qed simp_all

lemma lookup_Inr_value:
  assumes "lookup (Inr v) ks k d = Inr x"
  shows "x = value_or v (ks @ [k]) d"
proof -
  from assms obtain w where w: "chain (Inr v) ks = Inr w"
    by (cases "chain (Inr v) ks") (simp_all add: lookup_def)
  with assms obtain kvs where kvs: "w = PDict kvs"
    by (cases w) (simp_all add: lookup_def get_def)
  from chain_Inr_value [OF w] kvs
  have "(case value_at v ks of None \<Rightarrow> PDict [] | Some x \<Rightarrow> x) = PDict kvs" by simp
  then have "value_at v (ks @ [k]) = map_of kvs k"
    by (auto simp: value_at_append split: option.splits)
  with assms w kvs show ?thesis
    by (simp add: lookup_def value_or_def)
qed

lemma lookup_total:
  assumes "mappings_along v ks"
  shows "lookup (Inr v) ks k d = Inr (value_or v (ks @ [k]) d)"
proof -
  from chain_mappings [OF assms] obtain kvs where "chain (Inr v) ks = Inr (PDict kvs)" ..
  then have "\<exists>x. lookup (Inr v) ks k d = Inr x" by (simp add: lookup_def)
  then obtain x where x: "lookup (Inr v) ks k d = Inr x" ..
  from lookup_Inr_value [OF x] x show ?thesis by simp
qed


lemma no_attr_Inr [simp]: "no_attr (Inr v)"
  by (simp add: no_attr_def)

lemma no_attr_eval_items:
  "list_all (\<lambda>kc. no_attr (snd kc)) items \<Longrightarrow> no_attr (eval_items items)"
  by (induction items rule: eval_items.induct) (auto simp: no_attr_def split: sum.splits)

lemma no_attr_dict_display:
  "list_all (\<lambda>kc. no_attr (snd kc)) items \<Longrightarrow> no_attr (dict_display items)"
  using no_attr_eval_items [of items]
  by (auto simp: dict_display_def no_attr_def split: sum.splits)

lemma format_f_no_attr: "format_f c p v \<noteq> Inl AttributeError"
  by (cases v) (auto simp: int_to_float_def split: pyfloat.splits sum.splits)

lemma py_mul_no_attr: "py_mul v n \<noteq> Inl AttributeError"
  by (cases v) auto

lemma no_attr_format_currency: "no_attr c \<Longrightarrow> no_attr (call format_currency c)"
  using format_f_no_attr
  by (cases c) (auto simp: no_attr_def format_currency_def split: sum.splits)

lemma no_attr_format_percentage: "no_attr c \<Longrightarrow> no_attr (call format_percentage c)"
  using format_f_no_attr py_mul_no_attr
  by (cases c) (auto simp: no_attr_def format_percentage_def split: sum.splits)

lemma no_attr_get: "dict_res r \<Longrightarrow> no_attr (get r k d)"
  by (auto simp: dict_res_def)

lemma no_attr_join_pieces: "list_all piece_ok ps \<Longrightarrow> no_attr (join_pieces rp ps)"
  by (induction rp ps rule: join_pieces.induct) (auto simp: no_attr_def split: sum.splits)

lemma no_attr_fstring: "list_all piece_ok ps \<Longrightarrow> no_attr (fstring rp ps)"
  using no_attr_join_pieces [of ps rp]
  by (auto simp: fstring_def no_attr_def split: sum.splits)

lemma no_attr_if_else: "no_attr a \<Longrightarrow> no_attr c \<Longrightarrow> no_attr b \<Longrightarrow> no_attr (if_else a c b)"
  by (cases c) (auto simp: if_else_def no_attr_def)

lemma no_attr_eq_int: "no_attr c \<Longrightarrow> no_attr (eq_int c n)"
  by (cases c) (auto simp: eq_int_def no_attr_def)

lemma dict_res_chain: "mappings_along v ks \<Longrightarrow> dict_res (chain (Inr v) ks)"
  using chain_mappings by (simp add: dict_res_def)

lemmas no_attr_rules = no_attr_dict_display no_attr_format_currency no_attr_format_percentage
  no_attr_get no_attr_fstring no_attr_if_else no_attr_eq_int

lemma mappings_along_take: "mappings_along v ks \<Longrightarrow> mappings_along v (take n ks)"
proof (induction v ks arbitrary: n rule: mappings_along.induct)
  case (2 kvs k ks)
  then show ?case by (cases n) (auto split: option.splits)
qed simp_all

lemma well_nested_no_attr:
  assumes "well_nested r"
  shows "no_attr (get_school_metrics rp r)"
proof -
  from assms have paths:
    "list_all (\<lambda>p. list_all (\<lambda>n. dict_res (chain (Inr r) (take n p))) [1, 2, 3, 4, 5])
       receiver_paths"
    by (simp add: well_nested_def list_all_iff dict_res_chain mappings_along_take)
  from assms obtain kvs where r: "r = PDict kvs"
    by (cases r) (simp_all add: well_nested_def receiver_paths_def)
  from paths show ?thesis
    unfolding receiver_paths_def r get_school_metrics_def
    by (simp add: no_attr_rules Let_def)
qed


lemma call_eq_Inr_iff: "call f c = Inr x \<longleftrightarrow> (\<exists>v. c = Inr v \<and> f v = Inr x)"
  by (cases c) simp_all

lemma gsm_fields:
  assumes "get_school_metrics rp r = Inr rep"
  shows "has_sections rep \<and>
    (\<exists>ty ratio rate ug gr.
       field (Inr rep) [''Institution Overview'', ''Type''] = Inr ty \<and>
       if_else (Inr (PStr ''Public''))
         (eq_int (lookup (Inr r) [''school''] ''ownership'' PNone) 1)
         (Inr (PStr ''Private'')) = Inr ty \<and>
       field (Inr rep) [''Enrollment & Faculty'', ''Faculty'', ''Student-Faculty Ratio''] =
         Inr ratio \<and>
       fstring rp
         [Expr (lookup (Inr r) [''latest'', ''student'', ''demographics'']
            ''student_faculty_ratio'' PNone),
          Lit '':1''] = Inr ratio \<and>
       field (Inr rep) [''Student Success'', ''Graduation'', ''4-year rate''] = Inr rate \<and>
       field (Inr rep) [''Student Success'', ''Graduation'', ''6-year rate''] = Inr rate \<and>
       call format_percentage
         (lookup (Inr r) [''latest'', ''completion''] ''completion_rate_4yr_150nt'' PNone) =
         Inr rate \<and>
       field (Inr rep) [''Enrollment & Faculty'', ''Student Body'', ''Undergraduate Enrollment''] =
         Inr ug \<and>
       lookup (Inr r) [''latest'', ''student'', ''enrollment''] ''undergrad_12_month''
         (PStr ''N/A'') = Inr ug \<and>
       field (Inr rep) [''Enrollment & Faculty'', ''Student Body'', ''Graduate Enrollment''] =
         Inr gr \<and>
       lookup (Inr r) [''latest'', ''student'', ''enrollment''] ''grad_12_month''
         (PStr ''N/A'') = Inr gr)"
  using assms
  by (clarsimp simp: get_school_metrics_def Let_def dict_display_Nil_iff dict_display_Cons_iff
      lookup_def has_sections_def section_names_def nonempty_mapping_def
      split: sum.splits)

lemma get_school_metrics_empty:
  "get_school_metrics py_repr (PDict []) = Inr empty_report"
  by (simp add: get_school_metrics_def dict_display_def fstring_def if_else_def eq_int_def
      empty_report_def)

subsection \<open>The empty record\<close>

text \<open>
  C2, as stated: aggregating the empty record raises no error and every leaf of the
  report is the string \<^verbatim>\<open>"N/A"\<close>.  The second half fails: the report of \<^verbatim>\<open>{}\<close> has leaves
  that are \<^verbatim>\<open>None\<close>, \<^verbatim>\<open>"N/A, N/A"\<close>, \<^verbatim>\<open>"Private"\<close>, \<^verbatim>\<open>"None"\<close> and \<^verbatim>\<open>"None:1"\<close>.
\<close>

theorem empty_record_not_all_NA:
  "\<not> all_leaves_NA (get_school_metrics blank_repr (PDict []))"
  by (simp add: get_school_metrics_empty all_leaves_NA_def empty_report_def)

text \<open>
  C2, amended: aggregating the empty record raises no error and produces exactly
  \<open>empty_report\<close>: every leaf that goes through \<^verbatim>\<open>format_currency\<close> or
  \<^verbatim>\<open>format_percentage\<close>, and Address, Website and the two enrollment counts, are \<^verbatim>\<open>"N/A"\<close>;
  Name, Carnegie Classification, Accreditor and Average Age at Entry are \<^verbatim>\<open>None\<close>;
  Location is \<^verbatim>\<open>"N/A, N/A"\<close>, Type is \<^verbatim>\<open>"Private"\<close>, Religious Affiliation is \<^verbatim>\<open>"None"\<close> and
  Student-Faculty Ratio is \<^verbatim>\<open>"None:1"\<close>.
\<close>

theorem empty_record_report:
  "get_school_metrics py_repr (PDict []) = Inr empty_report \<and>
   leaves empty_report =
     [PNone, PStr ''N/A, N/A'', PStr ''N/A'', PStr ''N/A'', PStr ''Private'', PNone, PNone,
      PStr ''None'',
      PStr ''N/A'', PStr ''N/A'', PStr ''N/A'', PStr ''None:1'', PStr ''N/A'', PStr ''N/A'',
      PStr ''N/A'', PStr ''N/A'', PStr ''N/A'', PStr ''N/A'', PNone, PStr ''N/A'',
      PStr ''N/A'', PStr ''N/A'', PStr ''N/A'', PStr ''N/A'', PStr ''N/A'', PStr ''N/A'',
      PStr ''N/A'', PStr ''N/A'', PStr ''N/A'', PStr ''N/A'',
      PStr ''N/A'', PStr ''N/A'', PStr ''N/A'', PStr ''N/A'', PStr ''N/A'',
      PStr ''N/A'', PStr ''N/A'', PStr ''N/A'', PStr ''N/A'', PStr ''N/A'', PStr ''N/A'']"
  by (simp add: get_school_metrics_empty empty_report_def)

subsection \<open>Evaluating the formatters on numerals\<close>

lemmas eval_defs = format_currency_def format_percentage_def int_to_float_def round_to_double_def
  finite_or_inf_def shift_round_def scaled_def fixed_digits_def zero_pad_def digit_char_def
  float_eq_int_def Let_def

lemma bit_length_numeral [simp]:
  "bit_length (numeral n) = Suc (bit_length (numeral n div 2))"
  by (subst bit_length.simps) simp

lemma bit_length_0 [simp]: "bit_length 0 = 0"
  by (subst bit_length.simps) simp

lemma bit_length_1 [simp]: "bit_length (Suc 0) = Suc 0"
  by (subst bit_length.simps) simp

lemma sample_record_report:
  "get_school_metrics py_repr sample_record = Inr sample_report"
  unfolding sample_record_def sample_report_def
  by (simp add: get_school_metrics_def dict_display_def fstring_def if_else_def eq_int_def
      int_str_def eval_defs digits10.simps group3.simps)

lemma well_nested_sample_record: "well_nested sample_record"
  by (simp add: well_nested_def receiver_paths_def sample_record_def)

lemma formattable_sample_record: "formattable sample_record"
  by (simp add: formattable_def percentage_paths_def currency_paths_def sample_record_def
      value_or_def returns_def eval_defs digits10.simps group3.simps)

subsection \<open>When a report is produced\<close>

lemma returns_Inr [simp]: "returns (Inr v)"
  by (simp add: returns_def)

lemma returns_iff: "returns c \<longleftrightarrow> (\<exists>v. c = Inr v)"
  by (cases c) (simp_all add: returns_def)

lemma returns_eval_items:
  "list_all (\<lambda>kc. returns (snd kc)) items \<Longrightarrow> returns (eval_items items)"
  by (induction items rule: eval_items.induct) (auto simp: returns_def split: sum.splits)

lemma returns_dict_display:
  "list_all (\<lambda>kc. returns (snd kc)) items \<Longrightarrow> returns (dict_display items)"
  using returns_eval_items [of items]
  by (auto simp: dict_display_def returns_def split: sum.splits)

lemma returns_get: "dict_res r \<Longrightarrow> returns (get r k d)"
  by (auto simp: dict_res_def)

lemma returns_join_pieces: "list_all piece_returns ps \<Longrightarrow> returns (join_pieces rp ps)"
  by (induction rp ps rule: join_pieces.induct) (auto simp: returns_def split: sum.splits)

lemma returns_fstring: "list_all piece_returns ps \<Longrightarrow> returns (fstring rp ps)"
  using returns_join_pieces [of ps rp]
  by (auto simp: fstring_def returns_def split: sum.splits)

lemma returns_if_else: "returns a \<Longrightarrow> returns c \<Longrightarrow> returns b \<Longrightarrow> returns (if_else a c b)"
  by (cases c) (auto simp: if_else_def returns_def)

lemma returns_eq_int: "returns c \<Longrightarrow> returns (eq_int c n)"
  by (cases c) (auto simp: eq_int_def returns_def)

lemmas returns_rules = returns_dict_display returns_get returns_fstring returns_if_else
  returns_eq_int

lemma well_nested_prefixes:
  assumes "well_nested r"
  shows "list_all (\<lambda>p. list_all (\<lambda>n. mappings_along r (take n p)) [1, 2, 3, 4, 5])
           receiver_paths"
  using assms by (simp add: well_nested_def list_all_iff mappings_along_take)

lemma formatter_calls_return:
  assumes "well_nested r" and "formattable r"
  shows "list_all (\<lambda>p. returns (call format_percentage
             (lookup (Inr r) (butlast p) (last p) PNone))) percentage_paths"
    and "list_all (\<lambda>p. returns (call format_currency
             (lookup (Inr r) (butlast p) (last p) PNone))) currency_paths"
proof -
  have pct: "list_all (\<lambda>p. p \<noteq> [] \<and> mappings_along r (butlast p)) percentage_paths"
    using well_nested_prefixes [OF assms(1)]
    by (simp add: receiver_paths_def percentage_paths_def)
  have cur: "list_all (\<lambda>p. p \<noteq> [] \<and> mappings_along r (butlast p)) currency_paths"
    using well_nested_prefixes [OF assms(1)]
    by (simp add: receiver_paths_def currency_paths_def)
  have step: "returns (call f (lookup (Inr r) (butlast p) (last p) PNone))"
    if "p \<noteq> []" "mappings_along r (butlast p)" "returns (f (value_or r p PNone))"
    for f p
    using that lookup_total [of r "butlast p" "last p" PNone] by simp
  from pct assms(2)
  show "list_all (\<lambda>p. returns (call format_percentage
          (lookup (Inr r) (butlast p) (last p) PNone))) percentage_paths"
    by (auto simp: list_all_iff formattable_def intro!: step)
  from cur assms(2)
  show "list_all (\<lambda>p. returns (call format_currency
          (lookup (Inr r) (butlast p) (last p) PNone))) currency_paths"
    by (auto simp: list_all_iff formattable_def intro!: step)
qed

lemma well_formed_returns:
  assumes "well_nested r" and "formattable r"
  shows "returns (get_school_metrics rp r)"
proof -
  from assms(1) have paths:
    "list_all (\<lambda>p. list_all (\<lambda>n. dict_res (chain (Inr r) (take n p))) [1, 2, 3, 4, 5])
       receiver_paths"
    by (simp add: well_nested_def list_all_iff dict_res_chain mappings_along_take)
  from assms(1) obtain kvs where r: "r = PDict kvs"
    by (cases r) (simp_all add: well_nested_def receiver_paths_def)
  from paths formatter_calls_return [OF assms] show ?thesis
    unfolding receiver_paths_def percentage_paths_def currency_paths_def r
      get_school_metrics_def
    by (simp add: returns_rules Let_def lookup_def)
qed

subsection \<open>Lookups\<close>

text \<open>
  C1, as stated: for every record, no lookup of \<^verbatim>\<open>get_school_metrics\<close> raises.  It fails
  on a record that holds a value other than a mapping where a lookup descends:
  \<^verbatim>\<open>{"latest": None}\<close> makes \<^verbatim>\<open>latest.get('student', {})\<close> raise \<^verbatim>\<open>AttributeError\<close>.
\<close>

theorem null_node_raises:
  "get_school_metrics blank_repr null_latest_record = Inl AttributeError"
  by (simp add: null_latest_record_def get_school_metrics_def get_def dict_display_def
      fstring_def if_else_def eq_int_def)

text \<open>
  C1, amended: for every record in which each node that a lookup descends through is a
  mapping where it is present (keys may be missing at any depth), no lookup of
  \<^verbatim>\<open>get_school_metrics\<close> raises: the function does not end in \<^verbatim>\<open>AttributeError\<close>, the
  only exception a lookup has.  And a lookup
  \<^verbatim>\<open>v.get(k1, {}) ... .get(k, d)\<close> along such a path yields the value found at the path,
  or the default \<open>d\<close> when a key of the path is missing.
\<close>

theorem lookups_total:
  "(well_nested r \<longrightarrow> get_school_metrics py_repr r \<noteq> Inl AttributeError) \<and>
   (mappings_along v ks \<longrightarrow>
      lookup (Inr v) ks k d = Inr (case value_at v (ks @ [k]) of None \<Rightarrow> d | Some x \<Rightarrow> x))"
  using well_nested_no_attr [of r py_repr] lookup_total [of v ks k d]
  by (simp add: no_attr_def value_or_def)

lemma well_nested_partial_record: "well_nested partial_record"
  by (simp add: well_nested_def receiver_paths_def partial_record_def)

theorem lookups_total_witness:
  "well_nested partial_record \<and>
   get_school_metrics blank_repr partial_record \<noteq> Inl AttributeError \<and>
   mappings_along partial_record [''latest'', ''student'', ''enrollment''] \<and>
   lookup (Inr partial_record) [''latest'', ''student'', ''enrollment'']
     ''undergrad_12_month'' (PStr ''N/A'') = Inr (PStr ''N/A'') \<and>
   lookup (Inr partial_record) [''latest'', ''student'', ''enrollment'']
     ''grad_12_month'' (PStr ''N/A'') = Inr (PInt 14000)"
proof -
  have m: "mappings_along partial_record [''latest'', ''student'', ''enrollment'']"
    by (simp add: partial_record_def)
  note t = lookups_total [of partial_record blank_repr partial_record
      "[''latest'', ''student'', ''enrollment'']"]
  from t [of "''undergrad_12_month''" "PStr ''N/A''"] t [of "''grad_12_month''" "PStr ''N/A''"]
    well_nested_partial_record m
  show ?thesis
    by (simp add: partial_record_def)
qed

subsection \<open>Fields of a report\<close>

lemma fstring_Expr_Lit_Inr:
  assumes "fstring rp [Expr c, Lit s] = Inr y"
  shows "\<exists>x. c = Inr x \<and> y = PStr (py_str rp x @ s)"
  using assms by (cases c) (auto simp: fstring_def)

lemma if_else_eq_int_Inr:
  assumes "if_else (Inr a) (eq_int c n) (Inr b) = Inr y"
  shows "\<exists>x. c = Inr x \<and> y = (if py_eq_int x n then a else b)"
  using assms by (cases c) (auto simp: if_else_def eq_int_def)

text \<open>
  C6: in every report that \<^verbatim>\<open>get_school_metrics\<close> produces, the fields \<^verbatim>\<open>"4-year rate"\<close>
  and \<^verbatim>\<open>"6-year rate"\<close> of Graduation are equal: both are \<^verbatim>\<open>format_percentage\<close> of the value
  at \<^verbatim>\<open>latest.completion.completion_rate_4yr_150nt\<close> (\<^verbatim>\<open>None\<close> when the path is missing).
\<close>

theorem graduation_rates_equal:
  assumes "get_school_metrics py_repr r = Inr report"
  shows "\<exists>rate.
     field (Inr report) [''Student Success'', ''Graduation'', ''4-year rate''] = Inr rate \<and>
     field (Inr report) [''Student Success'', ''Graduation'', ''6-year rate''] = Inr rate \<and>
     format_percentage
       (value_or r [''latest'', ''completion'', ''completion_rate_4yr_150nt''] PNone) = Inr rate"
proof -
  from gsm_fields [OF assms] obtain rate where
    f4: "field (Inr report) [''Student Success'', ''Graduation'', ''4-year rate''] = Inr rate" and
    f6: "field (Inr report) [''Student Success'', ''Graduation'', ''6-year rate''] = Inr rate" and
    c: "call format_percentage
          (lookup (Inr r) [''latest'', ''completion''] ''completion_rate_4yr_150nt'' PNone) =
        Inr rate"
    by blast
  from c obtain x where
    x: "lookup (Inr r) [''latest'', ''completion''] ''completion_rate_4yr_150nt'' PNone = Inr x"
    and fx: "format_percentage x = Inr rate"
    by (auto simp: call_eq_Inr_iff)
  from lookup_Inr_value [OF x] fx f4 f6 show ?thesis by simp
qed

theorem graduation_rates_equal_witness:
  "get_school_metrics blank_repr sample_record = Inr sample_report \<and>
   field (Inr sample_report) [''Student Success'', ''Graduation'', ''4-year rate''] =
     Inr (PStr ''75.0%'') \<and>
   field (Inr sample_report) [''Student Success'', ''Graduation'', ''6-year rate''] =
     Inr (PStr ''75.0%'')"
  using graduation_rates_equal [OF sample_record_report [of blank_repr]]
    sample_record_report [of blank_repr]
  by (simp add: sample_report_def)

text \<open>
  C7: in every report that \<^verbatim>\<open>get_school_metrics\<close> produces, the Student-Faculty Ratio
  is the text of the value at \<^verbatim>\<open>latest.student.demographics.student_faculty_ratio\<close>
  followed by \<^verbatim>\<open>":1"\<close>, with \<^verbatim>\<open>None\<close> for a missing path and no guard: where the path is
  missing, the field is the string \<^verbatim>\<open>"None:1"\<close>.
\<close>

theorem ratio_unguarded:
  assumes "get_school_metrics py_repr r = Inr report"
  shows "field (Inr report) [''Enrollment & Faculty'', ''Faculty'', ''Student-Faculty Ratio''] =
       Inr (PStr (py_str py_repr
         (value_or r [''latest'', ''student'', ''demographics'', ''student_faculty_ratio'']
            PNone) @ '':1'')) \<and>
     (value_at r [''latest'', ''student'', ''demographics'', ''student_faculty_ratio''] = None
      \<longrightarrow> field (Inr report)
            [''Enrollment & Faculty'', ''Faculty'', ''Student-Faculty Ratio''] =
          Inr (PStr ''None:1''))"
proof -
  from gsm_fields [OF assms] obtain ratio where
    f: "field (Inr report) [''Enrollment & Faculty'', ''Faculty'', ''Student-Faculty Ratio''] =
        Inr ratio" and
    c: "fstring py_repr
          [Expr (lookup (Inr r) [''latest'', ''student'', ''demographics'']
             ''student_faculty_ratio'' PNone),
           Lit '':1''] = Inr ratio"
    by blast
  from fstring_Expr_Lit_Inr [OF c] obtain x where
    x: "lookup (Inr r) [''latest'', ''student'', ''demographics'']
          ''student_faculty_ratio'' PNone = Inr x"
    and y: "ratio = PStr (py_str py_repr x @ '':1'')"
    by blast
  from lookup_Inr_value [OF x] y f show ?thesis
    by (auto simp: value_or_def)
qed

lemma partial_record_report_returns:
  "returns (get_school_metrics py_repr partial_record)"
  by (rule well_formed_returns [OF well_nested_partial_record])
    (simp add: formattable_def percentage_paths_def currency_paths_def partial_record_def
      value_or_def eval_defs digits10.simps group3.simps)

theorem ratio_unguarded_witness:
  "\<exists>report. get_school_metrics blank_repr partial_record = Inr report \<and>
     value_at partial_record
       [''latest'', ''student'', ''demographics'', ''student_faculty_ratio''] = None \<and>
     field (Inr report) [''Enrollment & Faculty'', ''Faculty'', ''Student-Faculty Ratio''] =
       Inr (PStr ''None:1'')"
proof -
  from partial_record_report_returns [of blank_repr] obtain report where
    rep: "get_school_metrics blank_repr partial_record = Inr report"
    by (auto simp: returns_iff)
  have missing: "value_at partial_record
      [''latest'', ''student'', ''demographics'', ''student_faculty_ratio''] = None"
    by (simp add: partial_record_def)
  from ratio_unguarded [OF rep] missing
  have "field (Inr report) [''Enrollment & Faculty'', ''Faculty'', ''Student-Faculty Ratio''] =
      Inr (PStr ''None:1'')"
    by blast
  with rep missing show ?thesis by blast
qed

text \<open>
  C10: in every report that \<^verbatim>\<open>get_school_metrics\<close> produces, Type is \<^verbatim>\<open>"Public"\<close> if and
  only if the value at \<^verbatim>\<open>school.ownership\<close> equals 1 (as \<^verbatim>\<open>==\<close> compares: the
  integer 1, \<^verbatim>\<open>True\<close> or the float 1.0), and \<^verbatim>\<open>"Private"\<close> otherwise, also when the field
  is absent.
\<close>

theorem type_public_iff_ownership_1:
  assumes "get_school_metrics py_repr r = Inr report"
  shows "field (Inr report) [''Institution Overview'', ''Type''] =
       Inr (PStr (if py_eq_int (value_or r [''school'', ''ownership''] PNone) 1
                  then ''Public'' else ''Private'')) \<and>
     (field (Inr report) [''Institution Overview'', ''Type''] = Inr (PStr ''Public'') \<longleftrightarrow>
        py_eq_int (value_or r [''school'', ''ownership''] PNone) 1) \<and>
     (value_at r [''school'', ''ownership''] = None \<longrightarrow>
        field (Inr report) [''Institution Overview'', ''Type''] = Inr (PStr ''Private''))"
proof -
  from gsm_fields [OF assms] obtain ty where
    f: "field (Inr report) [''Institution Overview'', ''Type''] = Inr ty" and
    c: "if_else (Inr (PStr ''Public''))
          (eq_int (lookup (Inr r) [''school''] ''ownership'' PNone) 1)
          (Inr (PStr ''Private'')) = Inr ty"
    by blast
  from if_else_eq_int_Inr [OF c] obtain x where
    x: "lookup (Inr r) [''school''] ''ownership'' PNone = Inr x"
    and y: "ty = (if py_eq_int x 1 then PStr ''Public'' else PStr ''Private'')"
    by blast
  from lookup_Inr_value [OF x] y f show ?thesis
    by (auto simp: value_or_def)
qed

theorem type_public_iff_ownership_1_witness:
  "get_school_metrics blank_repr sample_record = Inr sample_report \<and>
   value_at sample_record [''school'', ''ownership''] = Some (PInt 1) \<and>
   field (Inr sample_report) [''Institution Overview'', ''Type''] = Inr (PStr ''Public'') \<and>
   get_school_metrics blank_repr (PDict []) = Inr empty_report \<and>
   value_at (PDict []) [''school'', ''ownership''] = None \<and>
   field (Inr empty_report) [''Institution Overview'', ''Type''] = Inr (PStr ''Private'')"
  using type_public_iff_ownership_1 [OF sample_record_report [of blank_repr]]
    type_public_iff_ownership_1 [OF get_school_metrics_empty [of blank_repr]]
    sample_record_report [of blank_repr] get_school_metrics_empty [of blank_repr]
  by (simp add: sample_record_def value_or_def)

subsection \<open>The sections of a report\<close>

text \<open>
  C9: every report that \<^verbatim>\<open>get_school_metrics\<close> produces has exactly the six sections
  Institution Overview, Enrollment & Faculty, Demographics, Cost & Financial Aid,
  Student Success and Career Outcomes, in that order, each a non-empty mapping.  A
  report is produced for every well nested record on whose fields the two formatters
  succeed, so for every fully populated record with numbers or nulls in the numeric
  fields.
\<close>

theorem six_sections:
  "(get_school_metrics py_repr r = Inr report \<longrightarrow>
      (\<exists>s1 s2 s3 s4 s5 s6.
         report = PDict
           [(''Institution Overview'', PDict s1), (''Enrollment & Faculty'', PDict s2),
            (''Demographics'', PDict s3), (''Cost & Financial Aid'', PDict s4),
            (''Student Success'', PDict s5), (''Career Outcomes'', PDict s6)] \<and>
         s1 \<noteq> [] \<and> s2 \<noteq> [] \<and> s3 \<noteq> [] \<and> s4 \<noteq> [] \<and> s5 \<noteq> [] \<and> s6 \<noteq> [])) \<and>
   (well_nested r \<and> formattable r \<longrightarrow> (\<exists>report. get_school_metrics py_repr r = Inr report))"
proof (intro conjI impI)
  assume "get_school_metrics py_repr r = Inr report"
  from gsm_fields [OF this] have "has_sections report" by blast
  then obtain kvs where rep: "report = PDict kvs"
    and names: "map fst kvs = section_names"
    and vals: "list_all nonempty_mapping (map snd kvs)"
    by (cases report) (simp_all add: has_sections_def)
  from names obtain v1 v2 v3 v4 v5 v6 where
    kvs: "kvs = [(''Institution Overview'', v1), (''Enrollment & Faculty'', v2),
      (''Demographics'', v3), (''Cost & Financial Aid'', v4),
      (''Student Success'', v5), (''Career Outcomes'', v6)]"
    by (auto simp: section_names_def map_eq_Cons_conv)
  from vals kvs obtain s1 s2 s3 s4 s5 s6 where
    "v1 = PDict s1" "v2 = PDict s2" "v3 = PDict s3" "v4 = PDict s4" "v5 = PDict s5"
    "v6 = PDict s6" "s1 \<noteq> []" "s2 \<noteq> []" "s3 \<noteq> []" "s4 \<noteq> []" "s5 \<noteq> []" "s6 \<noteq> []"
    by (auto simp: nonempty_mapping_def split: pyval.splits)
  with rep kvs show "\<exists>s1 s2 s3 s4 s5 s6.
         report = PDict
           [(''Institution Overview'', PDict s1), (''Enrollment & Faculty'', PDict s2),
            (''Demographics'', PDict s3), (''Cost & Financial Aid'', PDict s4),
            (''Student Success'', PDict s5), (''Career Outcomes'', PDict s6)] \<and>
         s1 \<noteq> [] \<and> s2 \<noteq> [] \<and> s3 \<noteq> [] \<and> s4 \<noteq> [] \<and> s5 \<noteq> [] \<and> s6 \<noteq> []"
    by blast
next
  assume "well_nested r \<and> formattable r"
  then have "returns (get_school_metrics py_repr r)"
    by (simp add: well_formed_returns)
  then show "\<exists>report. get_school_metrics py_repr r = Inr report"
    by (simp add: returns_iff)
qed

theorem six_sections_witness:
  "well_nested sample_record \<and> formattable sample_record \<and>
   get_school_metrics blank_repr sample_record = Inr sample_report \<and>
   (\<exists>s1 s2 s3 s4 s5 s6.
      sample_report = PDict
        [(''Institution Overview'', PDict s1), (''Enrollment & Faculty'', PDict s2),
         (''Demographics'', PDict s3), (''Cost & Financial Aid'', PDict s4),
         (''Student Success'', PDict s5), (''Career Outcomes'', PDict s6)] \<and>
      s1 \<noteq> [] \<and> s2 \<noteq> [] \<and> s3 \<noteq> [] \<and> s4 \<noteq> [] \<and> s5 \<noteq> [] \<and> s6 \<noteq> [])"
  using six_sections [of blank_repr sample_record sample_report]
    sample_record_report [of blank_repr] well_nested_sample_record formattable_sample_record
  by simp

subsection \<open>Total enrollment\<close>

lemma subscript_Inr_D: "subscript r k = Inr v \<Longrightarrow> \<exists>w. r = Inr w"
  by (cases r) (simp_all add: subscript_def)

lemma total_enrollment_fields:
  assumes "field (Inr report)
      [''Enrollment & Faculty'', ''Student Body'', ''Undergraduate Enrollment''] = Inr u"
  shows "total_enrollment str_int report =
     (case py_int_value str_int u of
        Inl err \<Rightarrow> Inl err
      | Inr a \<Rightarrow>
          (case py_int str_int
              (field (Inr report)
                 [''Enrollment & Faculty'', ''Student Body'', ''Graduate Enrollment'']) of
             Inl err \<Rightarrow> Inl err
           | Inr b \<Rightarrow> Inr (a + b)))"
proof -
  from assms have
    u: "subscript (subscript (subscript (Inr report) ''Enrollment & Faculty'') ''Student Body'')
          ''Undergraduate Enrollment'' = Inr u"
    by simp
  from subscript_Inr_D [OF u] obtain w where
    w: "subscript (subscript (Inr report) ''Enrollment & Faculty'') ''Student Body'' = Inr w" ..
  from u w show ?thesis
    by (simp add: total_enrollment_def py_int_def cong: sum.case_cong)
qed

lemma total_enrollment_of_counts:
  assumes rep: "get_school_metrics py_repr r = Inr report"
    and vu: "value_at r [''latest'', ''student'', ''enrollment'', ''undergrad_12_month''] =
      Some (PInt a)"
    and vg: "value_at r [''latest'', ''student'', ''enrollment'', ''grad_12_month''] =
      Some (PInt b)"
  shows "total_enrollment str_int report = Inr (a + b)"
proof -
  from gsm_fields [OF rep] obtain ug gr where
    fu: "field (Inr report)
      [''Enrollment & Faculty'', ''Student Body'', ''Undergraduate Enrollment''] = Inr ug" and
    lu: "lookup (Inr r) [''latest'', ''student'', ''enrollment''] ''undergrad_12_month''
      (PStr ''N/A'') = Inr ug" and
    fg: "field (Inr report)
      [''Enrollment & Faculty'', ''Student Body'', ''Graduate Enrollment''] = Inr gr" and
    lg: "lookup (Inr r) [''latest'', ''student'', ''enrollment''] ''grad_12_month''
      (PStr ''N/A'') = Inr gr"
    by blast
  from lookup_Inr_value [OF lu] lookup_Inr_value [OF lg] vu vg
  have "ug = PInt a" "gr = PInt b"
    by (simp_all add: value_or_def)
  with total_enrollment_fields [OF fu, of str_int] fg show ?thesis
    by (simp add: py_int_def)
qed

lemma total_enrollment_of_marker:
  assumes "field (Inr metrics)
      [''Enrollment & Faculty'', ''Student Body'', ''Undergraduate Enrollment''] =
      Inr (PStr ''N/A'')"
  shows "total_enrollment str_int metrics = Inl ValueError"
  using total_enrollment_fields [OF assms, of str_int]
  by (simp add: non_int_chars_def)

lemma undergraduate_absent_marker:
  assumes rep: "get_school_metrics py_repr r = Inr report"
    and vu: "value_at r [''latest'', ''student'', ''enrollment'', ''undergrad_12_month''] = None"
  shows "field (Inr report)
      [''Enrollment & Faculty'', ''Student Body'', ''Undergraduate Enrollment''] =
      Inr (PStr ''N/A'')"
proof -
  from gsm_fields [OF rep] obtain ug where
    fu: "field (Inr report)
      [''Enrollment & Faculty'', ''Student Body'', ''Undergraduate Enrollment''] = Inr ug" and
    lu: "lookup (Inr r) [''latest'', ''student'', ''enrollment''] ''undergrad_12_month''
      (PStr ''N/A'') = Inr ug"
    by blast
  from lookup_Inr_value [OF lu] vu fu show ?thesis
    by (simp add: value_or_def)
qed

lemma int_commas_35000: "int_commas 35000 = ''35,000''"
  by (simp add: int_commas_def digits10.simps group3.simps digit_char_def)

text \<open>
  C5: for a report built from a record with undergraduate 12-month enrollment 21000 and
  graduate 12-month enrollment 14000, the total enrollment of \<^verbatim>\<open>main\<close> is 35000 (shown as
  \<^verbatim>\<open>"35,000"\<close>); for a report whose Undergraduate Enrollment is the marker \<^verbatim>\<open>"N/A"\<close>, as
  in every report built from a record without that field, \<^verbatim>\<open>int("N/A")\<close> raises
  \<^verbatim>\<open>ValueError\<close>, whatever the graduate count is.
\<close>

theorem total_enrollment_derivation:
  "(get_school_metrics py_repr r = Inr report \<and>
    value_at r [''latest'', ''student'', ''enrollment'', ''undergrad_12_month''] =
      Some (PInt 21000) \<and>
    value_at r [''latest'', ''student'', ''enrollment'', ''grad_12_month''] =
      Some (PInt 14000) \<longrightarrow>
      total_enrollment str_int report = Inr 35000 \<and>
      total_enrollment_text str_int report = Inr ''35,000'') \<and>
   (field (Inr metrics)
      [''Enrollment & Faculty'', ''Student Body'', ''Undergraduate Enrollment''] =
      Inr (PStr ''N/A'') \<longrightarrow>
      total_enrollment str_int metrics = Inl ValueError) \<and>
   (get_school_metrics py_repr r = Inr report \<and>
    value_at r [''latest'', ''student'', ''enrollment'', ''undergrad_12_month''] = None \<longrightarrow>
      total_enrollment str_int report = Inl ValueError)"
  using total_enrollment_of_counts [of py_repr r report 21000 14000 str_int]
    total_enrollment_of_marker [of metrics str_int]
    total_enrollment_of_marker [OF undergraduate_absent_marker, of py_repr r report str_int]
  by (auto simp: total_enrollment_text_def int_commas_35000)

theorem total_enrollment_derivation_witness:
  "get_school_metrics blank_repr sample_record = Inr sample_report \<and>
   value_at sample_record [''latest'', ''student'', ''enrollment'', ''undergrad_12_month''] =
     Some (PInt 21000) \<and>
   value_at sample_record [''latest'', ''student'', ''enrollment'', ''grad_12_month''] =
     Some (PInt 14000) \<and>
   total_enrollment no_str_int sample_report = Inr 35000 \<and>
   total_enrollment_text no_str_int sample_report = Inr ''35,000'' \<and>
   field (Inr empty_report)
     [''Enrollment & Faculty'', ''Student Body'', ''Undergraduate Enrollment''] =
     Inr (PStr ''N/A'') \<and>
   total_enrollment no_str_int empty_report = Inl ValueError \<and>
   get_school_metrics blank_repr (PDict []) = Inr empty_report \<and>
   value_at (PDict []) [''latest'', ''student'', ''enrollment'', ''undergrad_12_month''] = None"
proof -
  have v: "value_at sample_record
      [''latest'', ''student'', ''enrollment'', ''undergrad_12_month''] = Some (PInt 21000)"
    "value_at sample_record
      [''latest'', ''student'', ''enrollment'', ''grad_12_month''] = Some (PInt 14000)"
    by (simp_all add: sample_record_def)
  have e: "field (Inr empty_report)
      [''Enrollment & Faculty'', ''Student Body'', ''Undergraduate Enrollment''] =
      Inr (PStr ''N/A'')"
    by (simp add: empty_report_def)
  from total_enrollment_derivation
    [of blank_repr sample_record sample_report no_str_int empty_report]
    sample_record_report [of blank_repr] get_school_metrics_empty [of blank_repr] v e
  show ?thesis by simp
qed

subsection \<open>The formatters\<close>



lemma digit_char_props:
  assumes "d < 10"
  shows "is_digit (digit_char d)" and "digit_val (digit_char d) = d"
proof -
  from assms have "d \<in> {0, 1, 2, 3, 4, 5, 6, 7, 8, 9}" by auto
  then show "is_digit (digit_char d)" and "digit_val (digit_char d) = d"
    by (auto simp: is_digit_def digit_val_def digit_char_def)
qed

lemma read_digits_snoc: "read_digits (ds @ [c]) = 10 * read_digits ds + digit_val c"
  by (simp add: read_digits_def)

lemma digits10_props:
  "list_all is_digit (digits10 n) \<and> digits10 n \<noteq> [] \<and> read_digits (digits10 n) = n"
proof (induction n rule: digits10.induct)
  case (1 n)
  show ?case
  proof (cases "n < 10")
    case True
    then show ?thesis
      by (subst (1 2 3) digits10.simps) (simp add: digit_char_props read_digits_def)
  next
    case False
    with 1 have ih: "list_all is_digit (digits10 (n div 10))" "digits10 (n div 10) \<noteq> []"
      "read_digits (digits10 (n div 10)) = n div 10"
      by simp_all
    have d: "n mod 10 < 10" by simp
    from False ih digit_char_props [OF d] show ?thesis
      by (subst (1 2 3) digits10.simps) (simp add: read_digits_snoc)
  qed
qed

lemma length_digits10: "0 < p \<Longrightarrow> n < 10 ^ p \<Longrightarrow> length (digits10 n) \<le> p"
proof (induction n arbitrary: p rule: digits10.induct)
  case (1 n)
  show ?case
  proof (cases "n < 10")
    case True
    with 1 show ?thesis by (subst digits10.simps) simp
  next
    case False
    from False 1(3) have "1 < p"
      by (cases "p = 1") (use 1(2) in auto)
    then obtain q where p: "p = Suc q" and q: "0 < q" by (cases p) auto
    from 1(3) p have "n div 10 < 10 ^ q"
      by (simp add: less_mult_imp_div_less mult.commute)
    with 1(1) [OF False q] have "length (digits10 (n div 10)) \<le> q" by simp
    with False p show ?thesis by (subst digits10.simps) simp
  qed
qed

lemma read_digits_zeros: "read_digits (replicate k CHR ''0'' @ ds) = read_digits ds"
proof -
  have "foldl (\<lambda>a c. 10 * a + digit_val c) 0 (replicate k CHR ''0'') = 0"
    by (induction k) (simp_all add: digit_val_def)
  then show ?thesis by (simp add: read_digits_def)
qed

lemma zero_pad_props:
  assumes "0 < p" "n < 10 ^ p"
  shows "length (zero_pad p (digits10 n)) = p"
    and "list_all is_digit (zero_pad p (digits10 n))"
    and "read_digits (zero_pad p (digits10 n)) = n"
proof -
  note len = length_digits10 [OF assms] and d = digits10_props [of n]
  from len show "length (zero_pad p (digits10 n)) = p"
    by (simp add: zero_pad_def)
  have "is_digit CHR ''0''" by (simp add: is_digit_def)
  with d show "list_all is_digit (zero_pad p (digits10 n))"
    by (simp add: zero_pad_def list_all_length nth_append)
  from d show "read_digits (zero_pad p (digits10 n)) = n"
    by (simp add: zero_pad_def read_digits_zeros)
qed

lemma digit_not_mark: "is_digit c \<Longrightarrow> c \<noteq> CHR '','' \<and> c \<noteq> CHR ''.'' \<and> c \<noteq> CHR ''-''"
  by (auto simp: is_digit_def)

lemma strip_commas_digits: "list_all is_digit ds \<Longrightarrow> strip_commas ds = ds"
  by (induction ds) (auto simp: strip_commas_def dest: digit_not_mark)

lemma grouped_rev_short:
  assumes "ds \<noteq> []" "length ds \<le> 3"
  shows "grouped_rev ds = list_all is_digit ds"
proof -
  from assms obtain a where "ds = [a] \<or> (\<exists>b. ds = [a, b]) \<or> (\<exists>b c. ds = [a, b, c])"
    by (cases ds rule: grouped_rev.cases) auto
  then show ?thesis by auto
qed

lemma group3_short: "length ds \<le> 3 \<Longrightarrow> group3 ds = ds"
  by (subst group3.simps) simp

lemma group3_long:
  "\<not> length ds \<le> 3 \<Longrightarrow>
     group3 ds = group3 (take (length ds - 3) ds) @ CHR '','' # drop (length ds - 3) ds"
  by (subst group3.simps) simp

lemma group3_props:
  "list_all is_digit ds \<Longrightarrow> ds \<noteq> [] \<Longrightarrow>
     well_grouped (group3 ds) \<and> strip_commas (group3 ds) = ds \<and>
     list_all (\<lambda>c. is_digit c \<or> c = CHR '','') (group3 ds) \<and>
     group3 ds \<noteq> [] \<and> hd (group3 ds) = hd ds"
proof (induction ds rule: group3.induct)
  case (1 ds)
  show ?case
  proof (cases "length ds \<le> 3")
    case True
    with 1(2,3) show ?thesis
      by (simp add: group3_short well_grouped_def grouped_rev_short strip_commas_digits
          list_all_iff)
  next
    case False
    define front where "front = take (length ds - 3) ds"
    define rear where "rear = drop (length ds - 3) ds"
    from False have lb: "length rear = 3" and fne: "front \<noteq> []"
      by (auto simp: rear_def front_def)
    from 1(2) have df: "list_all is_digit front" and db: "list_all is_digit rear"
      by (auto simp: front_def rear_def list_all_iff dest: in_set_takeD in_set_dropD)
    from lb obtain a b c where rear: "rear = [a, b, c]"
      by (auto simp: length_Suc_conv numeral_3_eq_3)
    from 1(1) [OF False] df fne
    have ih: "well_grouped (group3 front)" "strip_commas (group3 front) = front"
      "list_all (\<lambda>c. is_digit c \<or> c = CHR '','') (group3 front)"
      "group3 front \<noteq> []" "hd (group3 front) = hd front"
      by (simp_all add: front_def)
    have g: "group3 ds = group3 front @ CHR '','' # rear"
      using group3_long [OF False] by (simp add: front_def rear_def)
    have ds: "front @ rear = ds"
      by (simp add: front_def rear_def)
    from ih(1) db have w: "well_grouped (group3 front @ CHR '','' # rear)"
      by (simp add: rear well_grouped_def)
    from ih(2) strip_commas_digits [OF db]
    have s: "strip_commas (group3 front @ CHR '','' # rear) = front @ rear"
      by (simp add: strip_commas_def)
    from ih(3) db have l: "list_all (\<lambda>c. is_digit c \<or> c = CHR '','') (group3 front @ CHR '','' # rear)"
      by (auto simp: list_all_iff)
    from ih(4,5) fne have h: "group3 front @ CHR '','' # rear \<noteq> []"
      "hd (group3 front @ CHR '','' # rear) = hd (front @ rear)"
      by simp_all
    from w s l h show ?thesis
      unfolding g ds by simp
  qed
qed

lemma read_fixed_fixed_digits:
  assumes "0 < p"
  shows "read_fixed c p ((if s then ''-'' else []) @ fixed_digits c p n) = Some (s, n)"
proof -
  define ip where "ip = digits10 (n div 10 ^ p)"
  define G where "G = (if c then group3 ip else ip)"
  define F where "F = zero_pad p (digits10 (n mod 10 ^ p))"
  have ip: "list_all is_digit ip" "ip \<noteq> []" "read_digits ip = n div 10 ^ p"
    using digits10_props [of "n div 10 ^ p"] by (simp_all add: ip_def)
  have F: "length F = p" "list_all is_digit F" "read_digits F = n mod 10 ^ p"
    using zero_pad_props [OF assms, of "n mod 10 ^ p"] by (simp_all add: F_def)
  have G: "G \<noteq> []" "list_all (\<lambda>c. is_digit c \<or> c = CHR '','') G"
    "strip_commas G = ip" "if c then well_grouped G else G \<noteq> [] \<and> list_all is_digit G"
    "hd G = hd ip"
    using group3_props [OF ip(1,2)] ip strip_commas_digits [OF ip(1)]
    by (auto simp: G_def list_all_iff)
  from ip have "is_digit (hd ip)"
    by (cases ip) simp_all
  with G have hd: "hd G \<noteq> CHR ''-''"
    by (auto dest: digit_not_mark)
  from G(2) have nodot: "\<And>x. x \<in> set G \<Longrightarrow> x \<noteq> CHR ''.''"
    by (auto simp: list_all_iff dest: digit_not_mark)
  have tw: "takeWhile (\<lambda>x. x \<noteq> CHR ''.'') (G @ CHR ''.'' # F) = G"
    using nodot by (simp add: takeWhile_append2)
  have body: "fixed_digits c p n = G @ CHR ''.'' # F"
    using assms by (simp add: fixed_digits_def G_def ip_def F_def Let_def)
  have val: "read_digits (strip_commas G) * 10 ^ p + read_digits F = n"
    using G(3) ip(3) F(3) div_mult_mod_eq [of n "10 ^ p"] by simp
  show ?thesis
  proof (cases s)
    case True
    with tw F G val show ?thesis
      by (simp add: read_fixed_def body Let_def)
  next
    case False
    from G(1) hd have "hd (G @ CHR ''.'' # F) \<noteq> CHR ''-''" by simp
    with False tw F G val show ?thesis
      by (simp add: read_fixed_def body Let_def)
  qed
qed

lemma shift_round_nearest:
  "2 * \<bar>int (2 ^ k) * int (shift_round m k) - int m\<bar> \<le> int (2 ^ k)"
proof -
  define d where "d = (2::nat) ^ k"
  define f where "f = m div d"
  define r where "r = m mod d"
  have d: "0 < d" by (simp add: d_def)
  have m: "m = d * f + r" by (simp add: f_def r_def)
  have r: "r < d" using d by (simp add: r_def)
  have sr: "shift_round m k =
      (if 2 * r < d then f else if d < 2 * r then f + 1 else if even f then f else f + 1)"
    by (simp add: shift_round_def d_def f_def r_def Let_def)
  have a: "int d * int f - int m = - int r"
    by (simp add: m)
  have b: "int d * int (f + 1) - int m = int d - int r"
    by (simp add: m algebra_simps)
  have goal: "2 * \<bar>int d * int (shift_round m k) - int m\<bar> \<le> int d"
  proof -
    consider "2 * r < d" | "d < 2 * r" | "2 * r = d" by linarith
    then show ?thesis
    proof cases
      case 1
      then have "shift_round m k = f" by (simp add: sr)
      with a 1 show ?thesis by simp
    next
      case 2
      then have "shift_round m k = f + 1" by (simp add: sr)
      with b 2 r show ?thesis by simp
    next
      case 3
      then have "shift_round m k = f \<or> shift_round m k = f + 1" by (simp add: sr)
      with a b 3 r show ?thesis by auto
    qed
  qed
  then show ?thesis by (simp add: d_def)
qed

lemma scaled_nearest:
  "\<bar>of_nat (scaled m e p) - float_mag m e * 10 ^ p\<bar> \<le> (1 / 2 :: rat)"
proof (cases "0 \<le> e")
  case True
  then show ?thesis by (simp add: scaled_def float_mag_def)
next
  case False
  define k where "k = nat (- e)"
  define a where "a = m * 10 ^ p"
  define n where "n = shift_round a k"
  have sc: "scaled m e p = n" "float_mag m e * 10 ^ p = of_nat a / 2 ^ k"
    using False by (simp_all add: scaled_def float_mag_def k_def a_def n_def)
  from shift_round_nearest [of k a]
  have "2 * \<bar>int (2 ^ k) * int n - int a\<bar> \<le> int (2 ^ k)" by (simp add: n_def)
  then have "(of_int (2 * \<bar>int (2 ^ k) * int n - int a\<bar>) :: rat) \<le> of_int (int (2 ^ k))"
    by (rule of_int_le_iff [THEN iffD2])
  then have "2 * \<bar>(2 ^ k) * of_nat n - (of_nat a :: rat)\<bar> \<le> 2 ^ k"
    by simp
  moreover have "(2 ^ k) * of_nat n - (of_nat a :: rat) = 2 ^ k * (of_nat n - of_nat a / 2 ^ k)"
    by (simp add: field_simps)
  ultimately have "2 * (2 ^ k * \<bar>of_nat n - (of_nat a :: rat) / 2 ^ k\<bar>) \<le> 2 ^ k"
    by (simp add: abs_mult)
  then have "\<bar>of_nat n - (of_nat a :: rat) / 2 ^ k\<bar> \<le> 1 / 2"
    by (simp add: field_simps)
  with sc show ?thesis by simp
qed


lemma bit_length_bounds:
  "0 < n \<Longrightarrow> 2 ^ (bit_length n - 1) \<le> n \<and> n < 2 ^ bit_length n"
proof (induction n rule: bit_length.induct)
  case (1 n)
  then have n: "n \<noteq> 0" by simp
  have bl: "bit_length n = Suc (bit_length (n div 2))"
    using n by (subst bit_length.simps) simp
  show ?case
  proof (cases "n div 2 = 0")
    case True
    with n have "n = 1" by presburger
    with True bl show ?thesis
      by (simp add: bit_length.simps [of 0])
  next
    case False
    with 1(1) [OF n] have ih: "2 ^ (bit_length (n div 2) - 1) \<le> n div 2"
      "n div 2 < 2 ^ bit_length (n div 2)"
      by simp_all
    from False have pos: "0 < bit_length (n div 2)"
      by (subst bit_length.simps) simp
    then obtain j where j: "bit_length (n div 2) = Suc j" by (cases "bit_length (n div 2)") auto
    have q: "2 * (n div 2) \<le> n" "n \<le> 2 * (n div 2) + 1"
      by presburger+
    have p: "(2::nat) ^ Suc j = 2 * 2 ^ j" "(2::nat) ^ Suc (Suc j) = 4 * 2 ^ j"
      by simp_all
    from ih j have "2 ^ j \<le> n div 2" "n div 2 < 2 * 2 ^ j"
      by simp_all
    with q have "2 * 2 ^ j \<le> n" "n < 4 * 2 ^ j"
      by linarith+
    with bl j p show ?thesis by simp
  qed
qed

lemma bit_length_le: "n < 2 ^ j \<Longrightarrow> bit_length n \<le> j"
proof (cases "n = 0")
  case True
  then show ?thesis by (simp add: bit_length.simps [of 0])
next
  case False
  assume n: "n < 2 ^ j"
  from bit_length_bounds [of n] False have "2 ^ (bit_length n - 1) \<le> n"
    by simp
  from this n have "(2::nat) ^ (bit_length n - 1) < 2 ^ j"
    by (rule le_less_trans)
  then have "bit_length n - 1 < j" by simp
  then show ?thesis by simp
qed

lemma float_mag_powi: "float_mag m e = of_nat m * 2 powi e"
proof (cases "0 \<le> e")
  case True
  then show ?thesis by (simp add: float_mag_def power_int_def)
next
  case False
  then have "(2::rat) powi e = 1 / 2 ^ nat (- e)"
    by (simp add: power_int_def power_one_over)
  with False show ?thesis
    by (simp add: float_mag_def)
qed

lemma float_mag_nonneg: "0 \<le> float_mag m e"
  by (simp add: float_mag_def)

lemma shift_round_upper:
  assumes "a < 2 ^ (j + k)"
  shows "shift_round a k \<le> 2 ^ j"
proof -
  define X where "X = int (2 ^ k)"
  define P where "P = X * int (shift_round a k)"
  have X: "0 < X" by (simp add: X_def)
  from shift_round_nearest [of k a] have n: "2 * \<bar>P - int a\<bar> \<le> X"
    by (simp add: P_def X_def)
  define Y where "Y = X * 2 ^ j"
  from assms have "int a < int (2 ^ (j + k))" by (simp only: of_nat_less_iff)
  then have a: "int a < Y"
    by (simp add: X_def Y_def power_add mult.commute)
  from n a have "2 * P < 2 * Y + X" by arith
  then have "X * (2 * int (shift_round a k)) < X * (2 * 2 ^ j + 1)"
    by (simp add: P_def Y_def algebra_simps)
  with X have "2 * int (shift_round a k) < 2 * 2 ^ j + 1"
    by (simp only: mult_less_cancel_left_pos)
  then have "int (shift_round a k) \<le> 2 ^ j" by linarith
  then have "int (shift_round a k) \<le> int (2 ^ j)" by simp
  then show ?thesis by (simp only: of_nat_le_iff)
qed

lemma float_mul_100:
  assumes d: "is_double (Fl s m e)" and small: "m = 0 \<or> e \<le> 900"
  shows "\<exists>m' e'. float_mul (Fl s m e) 100 = Fl s m' e' \<and>
     \<bar>float_mag m' e' - 100 * float_mag m e\<bar> \<le> 100 * float_mag m e / 2 ^ 53"
proof -
  define a where "a = m * 100"
  define k where "k = max (int (bit_length a) - 53) (- 1074 - e)"
  from d have m: "m < 2 ^ 53" and e: "- 1074 \<le> e"
    by (simp_all add: is_double_def)
  from m have "a < 2 ^ 60" by (simp add: a_def)
  then have bl60: "bit_length a \<le> 60" by (rule bit_length_le)
  have mag_a: "float_mag a e = 100 * float_mag m e"
    by (simp add: float_mag_powi a_def)
  have mul: "float_mul (Fl s m e) 100 =
      (if k \<le> 0 then finite_or_inf s a e
       else finite_or_inf s (shift_round a (nat k)) (e + k))"
    by (simp add: round_to_double_def a_def k_def Let_def)
  show ?thesis
  proof (cases "k \<le> 0")
    case True
    then have "bit_length a \<le> 53" by (simp add: k_def)
    with small have "finite_or_inf s a e = Fl s a e"
      by (auto simp: finite_or_inf_def a_def)
    with True mul mag_a float_mag_nonneg [of m e] show ?thesis
      by simp
  next
    case False
    define K where "K = nat k"
    from False e have k: "k = int (bit_length a) - 53" by (simp add: k_def)
    with False bl60 have K: "bit_length a = 53 + K" "0 < K" "K \<le> 7" "k = int K"
      by (simp_all add: K_def)
    define m' where "m' = shift_round a K"
    from K have apos: "0 < a"
      by (cases "a = 0") (simp_all add: bit_length.simps [of 0])
    from apos small have small: "e \<le> 900" by (simp add: a_def)
    from bit_length_bounds [OF apos] K
    have lo: "2 ^ (52 + K) \<le> a" and hi: "a < 2 ^ (53 + K)"
      by simp_all
    from shift_round_upper [OF hi] have "m' \<le> 2 ^ 53" by (simp add: m'_def)
    then have "m' < 2 ^ 54" by simp
    then have "bit_length m' \<le> 54" by (rule bit_length_le)
    with small K have fin: "finite_or_inf s m' (e + k) = Fl s m' (e + k)"
      by (simp add: finite_or_inf_def)
    define X :: rat where "X = 2 ^ K"
    define P :: rat where "P = 2 powi e"
    define A :: rat where "A = of_nat a"
    define M :: rat where "M = of_nat m'"
    have P: "0 < P" by (simp add: P_def)
    from shift_round_nearest [of K a]
    have "2 * \<bar>int (2 ^ K) * int m' - int a\<bar> \<le> int (2 ^ K)" by (simp add: m'_def)
    then have "(of_int (2 * \<bar>int (2 ^ K) * int m' - int a\<bar>) :: rat) \<le> of_int (int (2 ^ K))"
      by (rule of_int_le_iff [THEN iffD2])
    then have near: "2 * \<bar>X * M - A\<bar> \<le> X"
      by (simp add: X_def M_def A_def)
    from lo have "(of_nat (2 ^ (52 + K)) :: rat) \<le> of_nat a"
      by (simp only: of_nat_le_iff)
    then have lo': "X * 2 ^ 52 \<le> A"
      by (simp add: X_def A_def power_add mult.commute)
    from near lo' have "\<bar>X * M - A\<bar> \<le> A / 2 ^ 53" by simp
    with P have "\<bar>X * M - A\<bar> * P \<le> A / 2 ^ 53 * P"
      by (simp add: mult_right_mono)
    moreover have "\<bar>X * M - A\<bar> * P = \<bar>M * (P * X) - A * P\<bar>"
    proof -
      have "M * (P * X) - A * P = (X * M - A) * P" by (simp add: algebra_simps)
      with P show ?thesis by (simp only: abs_mult abs_of_pos)
    qed
    moreover have "float_mag m' (e + k) = M * (P * X)"
      by (simp add: float_mag_powi M_def P_def X_def K power_int_add)
    moreover have "float_mag a e = A * P"
      by (simp add: float_mag_powi A_def P_def)
    ultimately have "\<bar>float_mag m' (e + k) - float_mag a e\<bar> \<le> float_mag a e / 2 ^ 53"
      by simp
    with False mul fin mag_a show ?thesis
      by (simp add: m'_def K_def)
  qed
qed


lemma float_mag_le_1_exponent:
  assumes "float_mag m e \<le> 1" "m \<noteq> 0"
  shows "e \<le> 0"
proof (rule ccontr)
  assume "\<not> e \<le> 0"
  then have e: "0 < nat e" "0 \<le> e" by simp_all
  then obtain j where j: "nat e = Suc j" by (cases "nat e") auto
  have "(2::rat) \<le> 2 ^ nat e" by (simp add: j)
  moreover from assms(2) have "(1::rat) \<le> of_nat m" by simp
  ultimately have "(1::rat) * 2 \<le> of_nat m * 2 ^ nat e"
    by (intro mult_mono) simp_all
  with e assms(1) show False by (simp add: float_mag_def)
qed

lemma int_to_float_exact:
  assumes "\<bar>j\<bar> < 2 ^ 53"
  shows "int_to_float j = Inr (Fl (j < 0) (nat \<bar>j\<bar>) 0)"
proof -
  from assms have "nat \<bar>j\<bar> < 2 ^ 53" by (simp add: nat_less_iff)
  then have "bit_length (nat \<bar>j\<bar>) \<le> 53" by (rule bit_length_le)
  then show ?thesis
    by (simp add: int_to_float_def round_to_double_def finite_or_inf_def Let_def)
qed

lemma read_money_float_fixed:
  "read_money (CHR ''$'' # float_fixed True 2 (Fl s m e)) = Some (s, scaled m e 2)"
  using read_fixed_fixed_digits [of 2 True s "scaled m e 2"]
  by (cases s) (simp_all add: read_money_def)

lemma read_percent_float_fixed:
  "read_percent (float_fixed False 1 (Fl s m e) @ ''%'') = Some (s, scaled m e 1)"
  using read_fixed_fixed_digits [of 1 False s "scaled m e 1"]
  by (cases s) (simp_all add: read_percent_def)

lemma format_currency_float:
  assumes "m \<noteq> 0"
  shows "\<exists>out n. format_currency (PFloat (Fl s m e)) = Inr (PStr out) \<and>
     read_money out = Some (s, n) \<and> \<bar>of_nat n - 100 * float_mag m e\<bar> \<le> (1 / 2 :: rat)"
proof -
  from assms have "\<not> float_eq_int (Fl s m e) 0"
    by (simp add: float_eq_int_def Let_def)
  then have "format_currency (PFloat (Fl s m e)) =
      Inr (PStr (CHR ''$'' # float_fixed True 2 (Fl s m e)))"
    by (simp add: format_currency_def)
  with read_money_float_fixed [of s m e] scaled_nearest [of m e 2] show ?thesis
    by (auto simp: mult.commute)
qed

lemma format_currency_int:
  assumes "i \<noteq> 0" "\<bar>i\<bar> < 2 ^ 53"
  shows "\<exists>out. format_currency (PInt i) = Inr (PStr out) \<and>
     read_money out = Some (i < 0, nat (100 * \<bar>i\<bar>))"
proof -
  from assms int_to_float_exact [OF assms(2)]
  have "format_currency (PInt i) =
      Inr (PStr (CHR ''$'' # float_fixed True 2 (Fl (i < 0) (nat \<bar>i\<bar>) 0)))"
    by (simp add: format_currency_def)
  moreover have "scaled (nat \<bar>i\<bar>) 0 2 = nat (100 * \<bar>i\<bar>)"
    by (simp add: scaled_def nat_mult_distrib)
  ultimately show ?thesis
    using read_money_float_fixed [of "i < 0" "nat \<bar>i\<bar>" 0] by simp
qed

lemma format_percentage_float:
  assumes "is_double (Fl s m e)" "float_mag m e \<le> 1"
  shows "\<exists>out n y. format_percentage (PFloat (Fl s m e)) = Inr (PStr out) \<and>
     read_percent out = Some (s, n) \<and> \<bar>of_nat n - 10 * y\<bar> \<le> (1 / 2 :: rat) \<and>
     \<bar>y - 100 * float_mag m e\<bar> \<le> 100 * float_mag m e / 2 ^ 53"
proof -
  have "m = 0 \<or> e \<le> 900"
  proof (cases "m = 0")
    case False
    from float_mag_le_1_exponent [OF assms(2) False] show ?thesis by simp
  qed simp
  from float_mul_100 [OF assms(1) this] obtain m' e' where
    mul: "float_mul (Fl s m e) 100 = Fl s m' e'" and
    err: "\<bar>float_mag m' e' - 100 * float_mag m e\<bar> \<le> 100 * float_mag m e / 2 ^ 53"
    by blast
  from mul have "format_percentage (PFloat (Fl s m e)) =
      Inr (PStr (float_fixed False 1 (Fl s m' e') @ ''%''))"
    by (simp add: format_percentage_def)
  with read_percent_float_fixed [of s m' e'] scaled_nearest [of m' e' 1] err show ?thesis
    by (auto simp: mult.commute)
qed

lemma format_percentage_int:
  assumes "\<bar>i\<bar> * 100 < 2 ^ 53"
  shows "\<exists>out. format_percentage (PInt i) = Inr (PStr out) \<and>
     read_percent out = Some (i < 0, nat (1000 * \<bar>i\<bar>))"
proof -
  from assms have "\<bar>i * 100\<bar> < 2 ^ 53" by (simp add: abs_mult)
  from int_to_float_exact [OF this]
  have "format_percentage (PInt i) =
      Inr (PStr (float_fixed False 1 (Fl (i < 0) (nat \<bar>i * 100\<bar>) 0) @ ''%''))"
    by (simp add: format_percentage_def mult_less_0_iff)
  moreover have "scaled (nat \<bar>i * 100\<bar>) 0 1 = nat (1000 * \<bar>i\<bar>)"
    by (simp add: scaled_def nat_mult_distrib abs_mult)
  ultimately show ?thesis
    using read_percent_float_fixed [of "i < 0" "nat \<bar>i * 100\<bar>" 0] by simp
qed

lemmas read_defs = read_money_def read_percent_def read_fixed_def well_grouped_def is_digit_def
  read_digits_def digit_val_def strip_commas_def Let_def

text \<open>
  C3: \<^verbatim>\<open>format_currency\<close> returns \<^verbatim>\<open>"N/A"\<close> for \<^verbatim>\<open>None\<close> and for a zero (the integer 0, the
  floats 0.0 and -0.0).  For every other finite number it returns a string that reads
  as a dollar sign, the sign of the amount, an integer part with thousands separators,
  and exactly two decimals; the cents it shows are the integer nearest to 100 times the
  amount (for an integer below \<open>2\<^sup>5\<^sup>3\<close>, exactly 100 times the amount).  In particular the
  double nearest to 12345.6, which is \<open>6787065375935693 * 2\<^sup>-\<^sup>3\<^sup>9\<close>, gives \<^verbatim>\<open>"$12,345.60"\<close>.
\<close>

theorem format_currency_spec:
  "format_currency PNone = Inr (PStr ''N/A'') \<and>
   format_currency (PInt 0) = Inr (PStr ''N/A'') \<and>
   format_currency (PFloat (Fl s 0 e)) = Inr (PStr ''N/A'') \<and>
   format_currency (PFloat (Fl False 6787065375935693 (- 39))) = Inr (PStr ''$12,345.60'') \<and>
   is_double (Fl False 6787065375935693 (- 39)) \<and>
   \<bar>float_mag 6787065375935693 (- 39) - 123456 / 10\<bar> < 1 / 2 ^ 40 \<and>
   (m \<noteq> 0 \<longrightarrow>
      (\<exists>out n. format_currency (PFloat (Fl s m e)) = Inr (PStr out) \<and>
         read_money out = Some (s, n) \<and>
         \<bar>of_nat n - 100 * float_mag m e\<bar> \<le> (1 / 2 :: rat))) \<and>
   (i \<noteq> 0 \<and> \<bar>i\<bar> < 2 ^ 53 \<longrightarrow>
      (\<exists>out. format_currency (PInt i) = Inr (PStr out) \<and>
         read_money out = Some (i < 0, nat (100 * \<bar>i\<bar>))))"
proof -
  have "format_currency (PFloat (Fl False 6787065375935693 (- 39))) = Inr (PStr ''$12,345.60'')"
    by (simp add: eval_defs digits10.simps group3.simps)
  moreover have "is_double (Fl False 6787065375935693 (- 39))"
    by (simp add: is_double_def)
  moreover have "\<bar>float_mag 6787065375935693 (- 39) - 123456 / 10\<bar> < 1 / 2 ^ 40"
    by (simp add: float_mag_def)
  moreover have "format_currency (PFloat (Fl s 0 e)) = Inr (PStr ''N/A'')"
    by (simp add: format_currency_def float_eq_int_def)
  ultimately show ?thesis
    using format_currency_float [of m s e] format_currency_int [of i]
    by (simp add: format_currency_def)
qed

theorem format_currency_spec_witness:
  "(6787065375935693::nat) \<noteq> 0 \<and>
   format_currency (PFloat (Fl False 6787065375935693 (- 39))) = Inr (PStr ''$12,345.60'') \<and>
   read_money ''$12,345.60'' = Some (False, 1234560) \<and>
   \<bar>of_nat 1234560 - 100 * float_mag 6787065375935693 (- 39)\<bar> \<le> (1 / 2 :: rat) \<and>
   (- 21000 :: int) \<noteq> 0 \<and> \<bar>- 21000 :: int\<bar> < 2 ^ 53 \<and>
   format_currency (PInt (- 21000)) = Inr (PStr ''$-21,000.00'') \<and>
   read_money ''$-21,000.00'' = Some (True, 2100000)"
proof -
  have "format_currency (PInt (- 21000)) = Inr (PStr ''$-21,000.00'')"
    by (simp add: eval_defs digits10.simps group3.simps)
  moreover have "read_money ''$12,345.60'' = Some (False, 1234560)"
    "read_money ''$-21,000.00'' = Some (True, 2100000)"
    by (simp_all add: read_defs)
  moreover have "\<bar>of_nat 1234560 - 100 * float_mag 6787065375935693 (- 39)\<bar> \<le> (1 / 2 :: rat)"
    by (simp add: float_mag_def)
  ultimately show ?thesis
    using format_currency_spec [of False "- 39" 6787065375935693 "- 21000"]
    by simp
qed

text \<open>
  C4: \<^verbatim>\<open>format_percentage\<close> returns \<^verbatim>\<open>"N/A"\<close> for \<^verbatim>\<open>None\<close>.  For a double \<open>x\<close> of magnitude at
  most 1 it returns a string that reads as the sign, digits, a point, one decimal and a
  percent sign; the tenths it shows are the integer nearest to 10 times \<open>y\<close>, where \<open>y\<close> is
  the float product \<^verbatim>\<open>x * 100\<close>, within \<open>2\<^sup>-\<^sup>5\<^sup>3\<close> (relative) of the exact product.  For an
  integer \<open>i\<close> it shows exactly \<open>100 * i\<close> with one decimal.  In particular the double
  nearest to 0.153, which is \<open>5512405943901487 * 2\<^sup>-\<^sup>5\<^sup>5\<close>, gives \<^verbatim>\<open>"15.3%"\<close>, and 1.0 gives
  \<^verbatim>\<open>"100.0%"\<close>.
\<close>

theorem format_percentage_spec:
  "format_percentage PNone = Inr (PStr ''N/A'') \<and>
   format_percentage (PFloat (Fl False 5512405943901487 (- 55))) = Inr (PStr ''15.3%'') \<and>
   is_double (Fl False 5512405943901487 (- 55)) \<and>
   \<bar>float_mag 5512405943901487 (- 55) - 153 / 1000\<bar> < 1 / 2 ^ 56 \<and>
   format_percentage (PFloat (Fl False 1 0)) = Inr (PStr ''100.0%'') \<and>
   (is_double (Fl s m e) \<and> float_mag m e \<le> 1 \<longrightarrow>
      (\<exists>out n y. format_percentage (PFloat (Fl s m e)) = Inr (PStr out) \<and>
         read_percent out = Some (s, n) \<and>
         \<bar>of_nat n - 10 * y\<bar> \<le> (1 / 2 :: rat) \<and>
         \<bar>y - 100 * float_mag m e\<bar> \<le> 100 * float_mag m e / 2 ^ 53)) \<and>
   (\<bar>i\<bar> * 100 < 2 ^ 53 \<longrightarrow>
      (\<exists>out. format_percentage (PInt i) = Inr (PStr out) \<and>
         read_percent out = Some (i < 0, nat (1000 * \<bar>i\<bar>))))"
proof -
  have "format_percentage (PFloat (Fl False 5512405943901487 (- 55))) = Inr (PStr ''15.3%'')"
    by (simp add: eval_defs digits10.simps)
  moreover have "format_percentage (PFloat (Fl False 1 0)) = Inr (PStr ''100.0%'')"
    by (simp add: eval_defs digits10.simps)
  moreover have "is_double (Fl False 5512405943901487 (- 55))"
    by (simp add: is_double_def)
  moreover have "\<bar>float_mag 5512405943901487 (- 55) - 153 / 1000\<bar> < 1 / 2 ^ 56"
    by (simp add: float_mag_def)
  ultimately show ?thesis
    using format_percentage_float [of s m e] format_percentage_int [of i]
    by (simp add: format_percentage_def)
qed

theorem format_percentage_spec_witness:
  "is_double (Fl False 3 (- 2)) \<and> float_mag 3 (- 2) \<le> 1 \<and>
   format_percentage (PFloat (Fl False 3 (- 2))) = Inr (PStr ''75.0%'') \<and>
   read_percent ''75.0%'' = Some (False, 750) \<and>
   \<bar>1 :: int\<bar> * 100 < 2 ^ 53 \<and>
   format_percentage (PInt 1) = Inr (PStr ''100.0%'') \<and>
   read_percent ''100.0%'' = Some (False, 1000)"
proof -
  have "format_percentage (PFloat (Fl False 3 (- 2))) = Inr (PStr ''75.0%'')"
    "format_percentage (PInt 1) = Inr (PStr ''100.0%'')"
    by (simp_all add: eval_defs digits10.simps)
  moreover have "read_percent ''75.0%'' = Some (False, 750)"
    "read_percent ''100.0%'' = Some (False, 1000)"
    by (simp_all add: read_defs)
  moreover have "is_double (Fl False 3 (- 2))" "float_mag 3 (- 2) \<le> 1"
    by (simp_all add: is_double_def float_mag_def)
  ultimately show ?thesis
    using format_percentage_spec [of False 3 "- 2" 1]
    by simp
qed

subsection \<open>The store\<close>

lemma ext_refl [simp]: "ext h h"
  by (simp add: ext_def)

lemma ext_trans:
  assumes "ext a b" "ext b c"
  shows "ext a c"
proof -
  from assms have l: "length a \<le> length b" "length b \<le> length c"
    and t: "take (length a) b = a" "take (length b) c = b"
    by (simp_all add: ext_def)
  from l have "take (length a) (take (length b) c) = take (length a) c"
    by (simp add: min_def)
  with t l show ?thesis by (simp add: ext_def)
qed

lemma ext_append [simp]: "ext h (h @ xs)"
  by (simp add: ext_def)

lemma ext_nth:
  assumes "ext h h'" "a < length h"
  shows "h' ! a = h ! a"
proof -
  from assms(2) have "take (length h) h' ! a = h' ! a" by simp
  with assms(1) show ?thesis by (simp add: ext_def)
qed

lemma ext_take:
  assumes "ext h h'" "a \<le> length h"
  shows "take a h' = take a h"
proof -
  from assms(2) have "take a (take (length h) h') = take a h'"
    by (simp add: min_def)
  with assms(1) show ?thesis by (simp add: ext_def)
qed

lemma ext_length: "ext h h' \<Longrightarrow> length h \<le> length h'"
  by (simp add: ext_def)

lemma valid_ext: "valid h v \<Longrightarrow> ext h h' \<Longrightarrow> valid h' v"
  by (cases v) (auto dest: ext_length)

lemma abs_stable: "valid h v \<Longrightarrow> ext h h' \<Longrightarrow> abs_val h' v = abs_val h v"
proof (cases v)
  case (HRef a)
  assume "valid h v" "ext h h'"
  with HRef have a: "a < length h" "a < length h'" "h' ! a = h ! a" "take a h' = take a h"
    by (auto dest: ext_length simp: ext_nth ext_take)
  with HRef show ?thesis by (simp split: obj.splits)
qed simp_all

lemma wf_heap_iff:
  "wf_heap h \<longleftrightarrow> (\<forall>a < length h. \<forall>x \<in> set (obj_values (h ! a)). valid (take a h) x)"
  by (auto simp: wf_heap_def list_all_iff)

lemma wf_snoc:
  assumes "wf_heap h" "list_all (valid h) (obj_values ob)"
  shows "wf_heap (h @ [ob])"
  unfolding wf_heap_iff
proof (intro allI impI ballI)
  fix a x
  assume a: "a < length (h @ [ob])" and x: "x \<in> set (obj_values ((h @ [ob]) ! a))"
  show "valid (take a (h @ [ob])) x"
  proof (cases "a < length h")
    case True
    with x assms(1) show ?thesis
      by (simp add: wf_heap_iff nth_append)
  next
    case False
    with a have "a = length h" by simp
    with x assms(2) show ?thesis
      by (simp add: list_all_iff)
  qed
qed

lemma wf_stored:
  assumes "wf_heap h" "a < length h" "x \<in> set (obj_values (h ! a))"
  shows "valid h x" and "abs_val (take a h) x = abs_val h x"
proof -
  from assms have v: "valid (take a h) x" by (simp add: wf_heap_iff)
  have e: "ext (take a h) h"
    using assms(2) by (simp add: ext_def)
  from v e show "valid h x" by (rule valid_ext)
  from abs_stable [OF v e] show "abs_val (take a h) x = abs_val h x" by simp
qed


lemma refines_ret:
  assumes "valid h0 v" "abs_val h0 v = p"
  shows "refines h0 (hret v) (Inr p)"
  unfolding refines_def hret_def
proof (intro allI impI)
  fix h
  assume "ext h0 h \<and> wf_heap h"
  with valid_ext [OF assms(1), of h] abs_stable [OF assms(1), of h] assms(2)
  show "case (Inr v, h) of
      (Inl err, h') \<Rightarrow> ext h h' \<and> wf_heap h' \<and> Inr p = Inl err
    | (Inr v, h') \<Rightarrow> ext h h' \<and> wf_heap h' \<and> valid h' v \<and> Inr p = Inr (abs_val h' v)"
    by simp
qed

lemma refines_ret_None: "refines h0 (hret HNone) (Inr PNone)"
  by (rule refines_ret) simp_all

lemma refines_ret_str: "refines h0 (hret (HStr s)) (Inr (PStr s))"
  by (rule refines_ret) simp_all

lemma refines_new_dict: "refines h0 new_dict (Inr (PDict []))"
  by (auto simp: refines_def new_dict_def intro: wf_snoc)

lemma map_of_abs:
  "map_of (map (\<lambda>kx. (fst kx, f (snd kx))) kvs) k = map_option f (map_of kvs k)"
  by (induction kvs) auto

lemma map_of_obj_values: "map_of kvs k = Some x \<Longrightarrow> x \<in> set (obj_values (ODict kvs))"
  by (auto dest: map_of_SomeD intro: rev_image_eqI)

lemma get_not_dict: "\<forall>kvs. v \<noteq> PDict kvs \<Longrightarrow> get (Inr v) k d = Inl AttributeError"
  by (cases v) (simp_all add: get_def)

lemma refines_get:
  assumes R: "refines h0 r c" and D: "refines h0 d (Inr dv)"
  shows "refines h0 (hget r k d) (get c k dv)"
  unfolding refines_def
proof (intro allI impI)
  fix h
  assume h: "ext h0 h \<and> wf_heap h"
  obtain res h1 where run: "r h = (res, h1)" by (cases "r h")
  show "case hget r k d h of
      (Inl err, h') \<Rightarrow> ext h h' \<and> wf_heap h' \<and> get c k dv = Inl err
    | (Inr v, h') \<Rightarrow> ext h h' \<and> wf_heap h' \<and> valid h' v \<and> get c k dv = Inr (abs_val h' v)"
  proof (cases res)
    case (Inl err)
    with R h run show ?thesis
      by (auto simp: refines_def hget_def)
  next
    case (Inr v)
    with R h run have 1: "ext h h1" "wf_heap h1" "valid h1 v" "c = Inr (abs_val h1 v)"
      by (auto simp: refines_def)
    from h 1 have e01: "ext h0 h1" by (blast intro: ext_trans)
    have bad: ?thesis if "\<forall>kvs. abs_val h1 v \<noteq> PDict kvs"
      and "hget r k d h = (Inl AttributeError, h1)"
      using that 1 by (simp add: get_not_dict)
    show ?thesis
    proof (cases v)
      case (HRef a)
      with 1 have a: "a < length h1" by simp
      show ?thesis
      proof (cases "h1 ! a")
        case (ODict kvs)
        obtain res2 h2 where run2: "d h1 = (res2, h2)" by (cases "d h1")
        with D e01 1 obtain dvv where res2: "res2 = Inr dvv"
          and 2: "ext h1 h2" "wf_heap h2" "valid h2 dvv" "dv = abs_val h2 dvv"
          by (cases res2) (auto simp: refines_def)
        from 1 2 have e: "ext h h2" by (blast intro: ext_trans)
        have c: "c = Inr (PDict (map (\<lambda>kx. (fst kx, abs_val (take a h1) (snd kx))) kvs))"
          using 1 HRef a ODict by simp
        have out: "hget r k d h = (Inr (case map_of kvs k of None \<Rightarrow> dvv | Some x \<Rightarrow> x), h2)"
          using run Inr HRef a ODict run2 res2 by (simp add: hget_def)
        show ?thesis
        proof (cases "map_of kvs k")
          case None
          with out e 2 c show ?thesis by (simp add: map_of_abs)
        next
          case (Some x)
          from map_of_obj_values [OF Some] ODict
          have x: "x \<in> set (obj_values (h1 ! a))" by simp
          from wf_stored [OF 1(2) a x]
          have vx: "valid h1 x" and ax: "abs_val (take a h1) x = abs_val h1 x" by simp_all
          from valid_ext [OF vx 2(1)] abs_stable [OF vx 2(1)]
          have "valid h2 x" "abs_val h2 x = abs_val h1 x"
            by simp_all
          with Some out e 2 c ax show ?thesis by (simp add: map_of_abs)
        qed
      next
        case (OList xs)
        with run Inr HRef a show ?thesis
          by (intro bad) (simp_all add: hget_def)
      qed
    next
      case HNone
      with run Inr show ?thesis by (intro bad) (simp_all add: hget_def)
    next
      case (HBool b)
      with run Inr show ?thesis by (intro bad) (simp_all add: hget_def)
    next
      case (HInt i)
      with run Inr show ?thesis by (intro bad) (simp_all add: hget_def)
    next
      case (HFloat f)
      with run Inr show ?thesis by (intro bad) (simp_all add: hget_def)
    next
      case (HStr t)
      with run Inr show ?thesis by (intro bad) (simp_all add: hget_def)
    qed
  qed
qed


lemma format_currency_str: "format_currency x = Inr y \<Longrightarrow> \<exists>s. y = PStr s"
  by (auto simp: format_currency_def split: if_splits sum.splits)

lemma format_percentage_str: "format_percentage x = Inr y \<Longrightarrow> \<exists>s. y = PStr s"
  by (auto simp: format_percentage_def split: if_splits sum.splits)

lemma refines_call:
  assumes R: "refines h0 a c" and str: "\<And>x y. f x = Inr y \<Longrightarrow> \<exists>s. y = PStr s"
  shows "refines h0 (hcall f a) (call f c)"
  unfolding refines_def
proof (intro allI impI)
  fix h
  assume h: "ext h0 h \<and> wf_heap h"
  obtain res h1 where run: "a h = (res, h1)" by (cases "a h")
  show "case hcall f a h of
      (Inl err, h') \<Rightarrow> ext h h' \<and> wf_heap h' \<and> call f c = Inl err
    | (Inr v, h') \<Rightarrow> ext h h' \<and> wf_heap h' \<and> valid h' v \<and> call f c = Inr (abs_val h' v)"
  proof (cases res)
    case (Inl err)
    with R h run show ?thesis
      by (auto simp: refines_def hcall_def)
  next
    case (Inr v)
    with R h run have 1: "ext h h1" "wf_heap h1" "c = Inr (abs_val h1 v)"
      by (auto simp: refines_def)
    show ?thesis
    proof (cases "f (abs_val h1 v)")
      case (Inl err)
      with 1 run Inr show ?thesis by (simp add: hcall_def)
    next
      case (Inr y)
      from str [OF Inr] obtain t where "y = PStr t" ..
      with 1 run \<open>res = Inr v\<close> Inr show ?thesis by (simp add: hcall_def)
    qed
  qed
qed

lemma refines_call_percentage:
  "refines h0 a c \<Longrightarrow> refines h0 (hcall format_percentage a) (call format_percentage c)"
  by (rule refines_call) (auto dest: format_percentage_str)

lemma refines_call_currency:
  "refines h0 a c \<Longrightarrow> refines h0 (hcall format_currency a) (call format_currency c)"
  by (rule refines_call) (auto dest: format_currency_str)

lemma heval_items_refines:
  assumes "list_all2 (\<lambda>km kc. fst km = fst kc \<and> refines h0 (snd km) (snd kc)) items items'"
    and "ext h0 h" and "wf_heap h"
  shows "case heval_items items h of
      (Inl err, h') \<Rightarrow> ext h h' \<and> wf_heap h' \<and> eval_items items' = Inl err
    | (Inr kvs, h') \<Rightarrow> ext h h' \<and> wf_heap h' \<and> list_all (valid h') (map snd kvs) \<and>
        eval_items items' = Inr (map (\<lambda>kx. (fst kx, abs_val h' (snd kx))) kvs)"
  using assms
proof (induction arbitrary: h rule: list_all2_induct)
  case Nil
  then show ?case by simp
next
  case (Cons km items kc items')
  obtain k m where km: "km = (k, m)" by (cases km)
  obtain k' c where kc: "kc = (k', c)" by (cases kc)
  from Cons(1) km kc have k: "k' = k" and R: "refines h0 m c" by simp_all
  obtain res h1 where run: "m h = (res, h1)" by (cases "m h")
  show ?case
  proof (cases res)
    case (Inl err)
    with R Cons.prems run km kc k show ?thesis
      by (auto simp: refines_def)
  next
    case (Inr v)
    with R Cons.prems run have 1: "ext h h1" "wf_heap h1" "valid h1 v" "c = Inr (abs_val h1 v)"
      by (auto simp: refines_def)
    from Cons.prems 1 have e01: "ext h0 h1" by (blast intro: ext_trans)
    obtain res2 h2 where run2: "heval_items items h1 = (res2, h2)"
      by (cases "heval_items items h1")
    note ih = Cons.IH [OF e01 1(2), unfolded run2]
    show ?thesis
    proof (cases res2)
      case (Inl err)
      with ih 1 run Inr run2 km kc k show ?thesis
        by (auto intro: ext_trans)
    next
      case res2: (Inr kvs)
      with ih have 2: "ext h1 h2" "wf_heap h2" "list_all (valid h2) (map snd kvs)"
        "eval_items items' = Inr (map (\<lambda>kx. (fst kx, abs_val h2 (snd kx))) kvs)"
        by simp_all
      from valid_ext [OF 1(3) 2(1)] abs_stable [OF 1(3) 2(1)]
      have v: "valid h2 v" "abs_val h2 v = abs_val h1 v" by simp_all
      from 1 2 have "ext h h2" by (blast intro: ext_trans)
      with 1 2 v run Inr run2 res2 km kc k show ?thesis
        by simp
    qed
  qed
qed

lemma refines_display:
  assumes "list_all2 (\<lambda>km kc. fst km = fst kc \<and> refines h0 (snd km) (snd kc)) items items'"
  shows "refines h0 (hdisplay items) (dict_display items')"
  unfolding refines_def
proof (intro allI impI)
  fix h
  assume h: "ext h0 h \<and> wf_heap h"
  obtain res h1 where run: "heval_items items h = (res, h1)" by (cases "heval_items items h")
  from h have "ext h0 h" "wf_heap h" by simp_all
  note r = heval_items_refines [OF assms this, unfolded run]
  show "case hdisplay items h of
      (Inl err, h') \<Rightarrow> ext h h' \<and> wf_heap h' \<and> dict_display items' = Inl err
    | (Inr v, h') \<Rightarrow> ext h h' \<and> wf_heap h' \<and> valid h' v \<and>
        dict_display items' = Inr (abs_val h' v)"
  proof (cases res)
    case (Inl err)
    with r run show ?thesis by (simp add: hdisplay_def dict_display_def)
  next
    case (Inr kvs)
    with r have 1: "ext h h1" "wf_heap h1" "list_all (valid h1) (map snd kvs)"
      "eval_items items' = Inr (map (\<lambda>kx. (fst kx, abs_val h1 (snd kx))) kvs)"
      by simp_all
    from 1(1) have "ext h (h1 @ [ODict kvs])"
      by (rule ext_trans) simp
    moreover from 1(2,3) have "wf_heap (h1 @ [ODict kvs])"
      by (intro wf_snoc) simp_all
    ultimately show ?thesis
      using run Inr 1(4) by (simp add: hdisplay_def dict_display_def)
  qed
qed

lemma hjoin_pieces_refines:
  assumes "list_all2 (piece_rel h0) ps ps'" and "ext h0 h" and "wf_heap h"
  shows "case hjoin_pieces rp ps h of
      (Inl err, h') \<Rightarrow> ext h h' \<and> wf_heap h' \<and> join_pieces rp ps' = Inl err
    | (Inr t, h') \<Rightarrow> ext h h' \<and> wf_heap h' \<and> join_pieces rp ps' = Inr t"
  using assms
proof (induction arbitrary: h rule: list_all2_induct)
  case Nil
  then show ?case by simp
next
  case (Cons p ps q ps')
  show ?case
  proof (cases p)
    case (HLit s)
    with Cons(1) have q: "q = Lit s" by (cases q) simp_all
    obtain res h1 where run: "hjoin_pieces rp ps h = (res, h1)"
      by (cases "hjoin_pieces rp ps h")
    from Cons.IH [OF Cons.prems, unfolded run] run HLit q show ?thesis
      by (cases res) simp_all
  next
    case (HExpr m)
    with Cons(1) obtain c where q: "q = Expr c" and R: "refines h0 m c"
      by (cases q) simp_all
    obtain res h1 where run: "m h = (res, h1)" by (cases "m h")
    show ?thesis
    proof (cases res)
      case (Inl err)
      with R Cons.prems run HExpr q show ?thesis
        by (auto simp: refines_def)
    next
      case (Inr v)
      with R Cons.prems run have 1: "ext h h1" "wf_heap h1" "c = Inr (abs_val h1 v)"
        by (auto simp: refines_def)
      from Cons.prems 1 have e01: "ext h0 h1" by (blast intro: ext_trans)
      obtain res2 h2 where run2: "hjoin_pieces rp ps h1 = (res2, h2)"
        by (cases "hjoin_pieces rp ps h1")
      from Cons.IH [OF e01 1(2), unfolded run2] 1 run Inr run2 HExpr q show ?thesis
        by (cases res2) (auto intro: ext_trans)
    qed
  qed
qed

lemma refines_fstring:
  assumes "list_all2 (piece_rel h0) ps ps'"
  shows "refines h0 (hfstring rp ps) (fstring rp ps')"
  unfolding refines_def
proof (intro allI impI)
  fix h
  assume h: "ext h0 h \<and> wf_heap h"
  obtain res h1 where run: "hjoin_pieces rp ps h = (res, h1)"
    by (cases "hjoin_pieces rp ps h")
  from h have "ext h0 h" "wf_heap h" by simp_all
  from hjoin_pieces_refines [OF assms this, of rp, unfolded run] run
  show "case hfstring rp ps h of
      (Inl err, h') \<Rightarrow> ext h h' \<and> wf_heap h' \<and> fstring rp ps' = Inl err
    | (Inr v, h') \<Rightarrow> ext h h' \<and> wf_heap h' \<and> valid h' v \<and>
        fstring rp ps' = Inr (abs_val h' v)"
    by (cases res) (simp_all add: hfstring_def fstring_def)
qed

lemma refines_if_else:
  assumes A: "refines h0 a ca" and C: "refines h0 c cc" and B: "refines h0 b cb"
  shows "refines h0 (hif_else a c b) (if_else ca cc cb)"
  unfolding refines_def
proof (intro allI impI)
  fix h
  assume h: "ext h0 h \<and> wf_heap h"
  obtain res h1 where run: "c h = (res, h1)" by (cases "c h")
  show "case hif_else a c b h of
      (Inl err, h') \<Rightarrow> ext h h' \<and> wf_heap h' \<and> if_else ca cc cb = Inl err
    | (Inr v, h') \<Rightarrow> ext h h' \<and> wf_heap h' \<and> valid h' v \<and>
        if_else ca cc cb = Inr (abs_val h' v)"
  proof (cases res)
    case (Inl err)
    with C h run show ?thesis
      by (auto simp: refines_def hif_else_def if_else_def)
  next
    case (Inr v)
    with C h run have 1: "ext h h1" "wf_heap h1" "cc = Inr (abs_val h1 v)"
      by (auto simp: refines_def)
    from h 1 have e01: "ext h0 h1" by (blast intro: ext_trans)
    define m where "m = (if py_truthy (abs_val h1 v) then a else b)"
    define cm where "cm = (if py_truthy (abs_val h1 v) then ca else cb)"
    from A B have "refines h0 m cm" by (simp add: m_def cm_def)
    with e01 1 have r: "case m h1 of
        (Inl err, h') \<Rightarrow> ext h1 h' \<and> wf_heap h' \<and> cm = Inl err
      | (Inr v, h') \<Rightarrow> ext h1 h' \<and> wf_heap h' \<and> valid h' v \<and> cm = Inr (abs_val h' v)"
      by (simp add: refines_def)
    have out: "hif_else a c b h = m h1" "if_else ca cc cb = cm"
      using run Inr 1 by (simp_all add: hif_else_def if_else_def m_def cm_def)
    obtain res2 h2 where run2: "m h1 = (res2, h2)" by (cases "m h1")
    from r 1(1) show ?thesis
      unfolding out run2 by (cases res2) (auto intro: ext_trans)
  qed
qed

lemma refines_eq_int:
  assumes R: "refines h0 r c"
  shows "refines h0 (heq_int r n) (eq_int c n)"
  unfolding refines_def
proof (intro allI impI)
  fix h
  assume h: "ext h0 h \<and> wf_heap h"
  obtain res h1 where run: "r h = (res, h1)" by (cases "r h")
  from R h run
  show "case heq_int r n h of
      (Inl err, h') \<Rightarrow> ext h h' \<and> wf_heap h' \<and> eq_int c n = Inl err
    | (Inr v, h') \<Rightarrow> ext h h' \<and> wf_heap h' \<and> valid h' v \<and>
        eq_int c n = Inr (abs_val h' v)"
    by (cases res) (auto simp: refines_def heq_int_def eq_int_def)
qed


lemma refines_run:
  assumes "refines h0 m c" "ext h0 h" "wf_heap h"
  shows "case m h of
      (Inl err, h') \<Rightarrow> ext h h' \<and> wf_heap h' \<and> c = Inl err
    | (Inr v, h') \<Rightarrow> ext h h' \<and> wf_heap h' \<and> valid h' v \<and> c = Inr (abs_val h' v)"
  using assms by (simp add: refines_def)

lemma refinesD:
  assumes "refines h2 m c" "ext h h2" "wf_heap h2"
  shows "case m h2 of
      (Inl err, h') \<Rightarrow> ext h h' \<and> wf_heap h' \<and> c = Inl err
    | (Inr v, h') \<Rightarrow> ext h h' \<and> wf_heap h' \<and> valid h' v \<and> c = Inr (abs_val h' v)"
proof -
  obtain res h3 where run: "m h2 = (res, h3)" by (cases "m h2")
  from assms(1,3) have "case m h2 of
      (Inl err, h') \<Rightarrow> ext h2 h' \<and> wf_heap h' \<and> c = Inl err
    | (Inr v, h') \<Rightarrow> ext h2 h' \<and> wf_heap h' \<and> valid h' v \<and> c = Inr (abs_val h' v)"
    by (simp add: refines_def)
  then show ?thesis
    unfolding run using ext_trans [OF assms(2)] by (cases res) auto
qed

lemmas refines_rules =
  refines_display refines_get refines_fstring refines_if_else refines_eq_int
  refines_call_percentage refines_call_currency refines_ret_None refines_ret_str
  refines_new_dict

lemma get_school_metrics_heap_refines:
  assumes v: "valid h0 v"
  shows "refines h0 (get_school_metrics_heap py_repr v)
    (get_school_metrics py_repr (abs_val h0 v))"
  unfolding refines_def
proof (intro allI impI)
  fix h
  assume "ext h0 h \<and> wf_heap h"
  then have h: "ext h0 h" "wf_heap h" by simp_all
  have rec: "refines h0 (hret v) (Inr (abs_val h0 v))"
    using v by (rule refines_ret) simp
  let ?c1 = "get (Inr (abs_val h0 v)) ''latest'' (PDict [])"
  let ?c2 = "get (Inr (abs_val h0 v)) ''school'' (PDict [])"
  have G1: "refines h0 (hget (hret v) ''latest'' new_dict) ?c1"
    and G2: "refines h0 (hget (hret v) ''school'' new_dict) ?c2"
    using rec by (simp_all add: refines_rules)
  obtain r1 h1 where run1: "hget (hret v) ''latest'' new_dict h = (r1, h1)"
    by (cases "hget (hret v) ''latest'' new_dict h")
  from G1 h run1
  have 1: "case r1 of Inl err \<Rightarrow> ext h h1 \<and> wf_heap h1 \<and> ?c1 = Inl err
    | Inr x \<Rightarrow> ext h h1 \<and> wf_heap h1 \<and> valid h1 x \<and> ?c1 = Inr (abs_val h1 x)"
    by (auto simp: refines_def split: sum.splits)
  show "case get_school_metrics_heap py_repr v h of
      (Inl err, h') \<Rightarrow> ext h h' \<and> wf_heap h' \<and>
        get_school_metrics py_repr (abs_val h0 v) = Inl err
    | (Inr x, h') \<Rightarrow> ext h h' \<and> wf_heap h' \<and> valid h' x \<and>
        get_school_metrics py_repr (abs_val h0 v) = Inr (abs_val h' x)"
  proof (cases r1)
    case (Inl err)
    with 1 run1 show ?thesis
      by (simp add: get_school_metrics_heap_def get_school_metrics_def)
  next
    case (Inr lv)
    with 1 have a: "ext h h1" "wf_heap h1" "valid h1 lv" "?c1 = Inr (abs_val h1 lv)"
      by simp_all
    from h a have e01: "ext h0 h1" by (blast intro: ext_trans)
    obtain r2 h2 where run2: "hget (hret v) ''school'' new_dict h1 = (r2, h2)"
      by (cases "hget (hret v) ''school'' new_dict h1")
    from G2 e01 a(2) run2
    have 2: "case r2 of Inl err \<Rightarrow> ext h1 h2 \<and> wf_heap h2 \<and> ?c2 = Inl err
      | Inr x \<Rightarrow> ext h1 h2 \<and> wf_heap h2 \<and> valid h2 x \<and> ?c2 = Inr (abs_val h2 x)"
      by (auto simp: refines_def split: sum.splits)
    show ?thesis
    proof (cases r2)
      case (Inl err)
      with 2 a run1 run2 \<open>r1 = Inr lv\<close> show ?thesis
        by (auto simp: get_school_metrics_heap_def get_school_metrics_def intro: ext_trans)
    next
      case r2: (Inr sv)
      with 2 have b: "ext h1 h2" "wf_heap h2" "valid h2 sv" "?c2 = Inr (abs_val h2 sv)"
        by simp_all
      from a b have e: "ext h h2" by (blast intro: ext_trans)
      have L: "refines h2 (hret lv) (Inr (abs_val h1 lv))"
        using valid_ext [OF a(3) b(1)] abs_stable [OF a(3) b(1)] by (rule refines_ret)
      have S: "refines h2 (hret sv) (Inr (abs_val h2 sv))"
        using b(3) by (rule refines_ret) simp
      show ?thesis
        unfolding get_school_metrics_heap_def get_school_metrics_def run1 run2 Inr r2 a(4) b(4)
          sum.case prod.case Let_def
        apply (rule refinesD [OF _ e b(2)])
        apply (simp add: refines_rules L S)
        done
    qed
  qed
qed


lemma sample_store_wf: "wf_heap sample_store"
  by (simp add: wf_heap_def sample_store_def)

lemma sample_store_record: "abs_val sample_store (HRef 7) = partial_record"
  by (simp add: sample_store_def partial_record_def)

text \<open>
  C8.  In the store model, where every \<open>{}\<close> and every dictionary display allocates an
  object, calling \<open>get_school_metrics\<close> twice on the same record reference, the second
  time in the store the first call left, gives twice the same outcome (report value or
  exception), the one of the pure function on the record's value.  Neither call
  changes an object that existed before it: the first report and the record read the
  same afterwards.
\<close>

theorem get_school_metrics_repeatable:
  assumes "wf_heap h" and "valid h v"
  shows "case get_school_metrics_heap py_repr v h of (r1, h1) \<Rightarrow>
    case get_school_metrics_heap py_repr v h1 of (r2, h2) \<Rightarrow>
      observe h1 r1 = get_school_metrics py_repr (abs_val h v) \<and>
      observe h2 r2 = observe h1 r1 \<and>
      observe h2 r1 = observe h1 r1 \<and>
      take (length h) h1 = h \<and> take (length h1) h2 = h1 \<and>
      abs_val h1 v = abs_val h v \<and> abs_val h2 v = abs_val h v"
proof -
  let ?c = "get_school_metrics py_repr (abs_val h v)"
  obtain r1 h1 where run1: "get_school_metrics_heap py_repr v h = (r1, h1)"
    by (cases "get_school_metrics_heap py_repr v h")
  obtain r2 h2 where run2: "get_school_metrics_heap py_repr v h1 = (r2, h2)"
    by (cases "get_school_metrics_heap py_repr v h1")
  note R = get_school_metrics_heap_refines [OF assms(2), of py_repr]
  from refines_run [OF R ext_refl assms(1)] run1
  have "case r1 of Inl err \<Rightarrow> ext h h1 \<and> wf_heap h1 \<and> ?c = Inl err
    | Inr x \<Rightarrow> ext h h1 \<and> wf_heap h1 \<and> valid h1 x \<and> ?c = Inr (abs_val h1 x)"
    by (simp split: sum.splits)
  then have 1: "ext h h1" "wf_heap h1" "observe h1 r1 = ?c"
    "case r1 of Inl err \<Rightarrow> True | Inr x \<Rightarrow> valid h1 x"
    by (simp_all add: observe_def split: sum.splits)
  from refines_run [OF R 1(1,2)] run2
  have "case r2 of Inl err \<Rightarrow> ext h1 h2 \<and> ?c = Inl err
    | Inr x \<Rightarrow> ext h1 h2 \<and> ?c = Inr (abs_val h2 x)"
    by (simp split: sum.splits)
  then have 12: "ext h1 h2" and 2: "observe h2 r2 = ?c"
    by (simp_all add: observe_def split: sum.splits)
  from 1(1) 12 have 02: "ext h h2" by (rule ext_trans)
  have same: "observe h2 r2 = observe h1 r1"
    using 1(3) 2 by simp
  have kept: "observe h2 r1 = observe h1 r1"
    using 1(4) abs_stable [OF _ 12] by (cases r1) (simp_all add: observe_def)
  have frame: "take (length h) h1 = h" "take (length h1) h2 = h1"
    using 1(1) 12 by (simp_all add: ext_def)
  have input: "abs_val h1 v = abs_val h v" "abs_val h2 v = abs_val h v"
    using abs_stable [OF assms(2) 1(1)] abs_stable [OF assms(2) 02] by simp_all
  show ?thesis
    unfolding run1 run2 prod.case
    by (intro conjI; fact)
qed

theorem get_school_metrics_repeatable_witness:
  "wf_heap sample_store \<and> valid sample_store (HRef 7) \<and>
   (case get_school_metrics_heap blank_repr (HRef 7) sample_store of (r1, h1) \<Rightarrow>
    case get_school_metrics_heap blank_repr (HRef 7) h1 of (r2, h2) \<Rightarrow>
      observe h1 r1 = get_school_metrics blank_repr partial_record \<and>
      observe h2 r2 = observe h1 r1 \<and>
      observe h2 r1 = observe h1 r1 \<and>
      take 8 h1 = sample_store \<and> take (length h1) h2 = h1 \<and>
      abs_val h1 (HRef 7) = partial_record \<and> abs_val h2 (HRef 7) = partial_record)"
proof -
  have v: "valid sample_store (HRef 7)" and n: "length sample_store = 8"
    by (simp_all add: sample_store_def)
  note run = get_school_metrics_repeatable [OF sample_store_wf v, of blank_repr,
    unfolded sample_store_record n]
  show ?thesis
    by (rule conjI [OF sample_store_wf conjI [OF v run]])
qed

end
